theory Spec2Isabelle
  imports Main "HOL-Library.Code_Target_Nat"
begin

section \<open>HDWalletService: index allocation on the persistent store\<close>

text \<open>
  The service of \<^verbatim>\<open>fluxapay_backend/src/services/HDWalletService.ts\<close> keeps its
  indices in two tables that it reaches through the Prisma client:
  \<^item> \<^verbatim>\<open>merchantHDIndex\<close>, one row per merchant, unique on \<^verbatim>\<open>merchantId\<close>, with the
    columns \<^verbatim>\<open>merchant_index\<close> and \<^verbatim>\<open>payment_counter\<close>;
  \<^item> \<^verbatim>\<open>hDIndexCounter\<close>, whose row \<^verbatim>\<open>"global"\<close> holds \<^verbatim>\<open>next_merchant_index\<close>;
  \<^item> \<^verbatim>\<open>payment\<close>, of which only the nullable column \<^verbatim>\<open>payment_index\<close> is read.

  The store is an explicit state. Every Prisma call is a function on that state that
  returns an error value where the client would throw. A transaction is one atomic step:
  calls of different requests are interleaved as whole transactions and whole single
  updates. Numbers are the integers (the column type of the store is not part of the
  sources, so no upper bound is put on a counter).
\<close>

subsection \<open>Errors\<close>

datatype error =
    MasterSeedRequired                \<comment> \<open>\<^verbatim>\<open>Error("Master seed is required")\<close>\<close>
  | InvalidEncryptedKeyDataFormat     \<comment> \<open>\<^verbatim>\<open>Error("Invalid encrypted key data format")\<close>\<close>
  | NoHDIndexFound string             \<comment> \<open>\<^verbatim>\<open>Error(`No HD index found for merchant ...`)\<close>\<close>
  | NoPaymentIndexStored              \<comment> \<open>\<^verbatim>\<open>Error(`No payment_index stored for payment ...`)\<close>\<close>
  | InvalidDerivationPath             \<comment> \<open>ed25519-hd-key: \<^verbatim>\<open>Error('Invalid derivation path')\<close>\<close>
  | ERR_OUT_OF_RANGE                  \<comment> \<open>\<^verbatim>\<open>RangeError\<close> of \<^verbatim>\<open>Buffer.writeUInt32BE\<close>\<close>
  | AuthenticationFailed              \<comment> \<open>node:crypto, \<^verbatim>\<open>decipher.final()\<close>: the tag does not verify\<close>
  | CryptoError string                \<comment> \<open>any other error thrown by node:crypto\<close>
  | SyntaxError                       \<comment> \<open>\<^verbatim>\<open>JSON.parse\<close>\<close>
  | KeypairError                      \<comment> \<open>thrown by the Stellar SDK's \<^verbatim>\<open>Keypair\<close>\<close>
  | ProviderError string              \<comment> \<open>thrown by the configured KMS provider\<close>
  | UniqueConstraintViolation         \<comment> \<open>Prisma P2002\<close>
  | RecordNotFound                    \<comment> \<open>Prisma P2025\<close>
  | ValidationError                   \<comment> \<open>Prisma: an argument of the wrong type\<close>

subsection \<open>The store\<close>

record MerchantHDIndex =
  merchant_index :: int
  payment_counter :: int

record store =
  merchantHDIndex :: "string \<rightharpoonup> MerchantHDIndex"
  hDIndexCounter :: "string \<rightharpoonup> int"
  payment :: "string \<rightharpoonup> int option"

definition empty_store :: store where
  "empty_store = \<lparr>merchantHDIndex = Map.empty, hDIndexCounter = Map.empty, payment = Map.empty\<rparr>"

text \<open>\<^verbatim>\<open>tx.hDIndexCounter.upsert({where: {id}, create: {id, next_merchant_index: 0}, update: {}})\<close>\<close>

definition hDIndexCounter_upsert :: "string \<Rightarrow> store \<Rightarrow> store" where
  "hDIndexCounter_upsert cid db =
     (case hDIndexCounter db cid of
        None \<Rightarrow> db\<lparr>hDIndexCounter := (hDIndexCounter db)(cid \<mapsto> 0)\<rparr>
      | Some _ \<Rightarrow> db)"

text \<open>\<^verbatim>\<open>tx.hDIndexCounter.update({where: {id}, data: {next_merchant_index: {increment: 1}}})\<close>
  returns the updated row; it throws when the row does not exist.\<close>

definition hDIndexCounter_update_increment :: "string \<Rightarrow> store \<Rightarrow> error + (int \<times> store)" where
  "hDIndexCounter_update_increment cid db =
     (case hDIndexCounter db cid of
        None \<Rightarrow> Inl RecordNotFound
      | Some n \<Rightarrow> Inr (n + 1, db\<lparr>hDIndexCounter := (hDIndexCounter db)(cid \<mapsto> n + 1)\<rparr>))"

text \<open>\<^verbatim>\<open>tx.merchantHDIndex.create({data: {merchantId, merchant_index, payment_counter}})\<close>
  throws when a row of that merchant exists.\<close>

definition merchantHDIndex_create :: "string \<Rightarrow> MerchantHDIndex \<Rightarrow> store \<Rightarrow> error + store" where
  "merchantHDIndex_create merchantId row db =
     (case merchantHDIndex db merchantId of
        Some _ \<Rightarrow> Inl UniqueConstraintViolation
      | None \<Rightarrow> Inr (db\<lparr>merchantHDIndex := (merchantHDIndex db)(merchantId \<mapsto> row)\<rparr>))"

text \<open>\<^verbatim>\<open>prisma.merchantHDIndex.update({where: {merchantId}, data: {payment_counter: {increment: 1}}})\<close>
  returns the updated row.\<close>

definition merchantHDIndex_update_increment ::
  "string \<Rightarrow> store \<Rightarrow> error + (MerchantHDIndex \<times> store)" where
  "merchantHDIndex_update_increment merchantId db =
     (case merchantHDIndex db merchantId of
        None \<Rightarrow> Inl RecordNotFound
      | Some row \<Rightarrow>
          (let updated = row\<lparr>payment_counter := payment_counter row + 1\<rparr>
           in Inr (updated, db\<lparr>merchantHDIndex := (merchantHDIndex db)(merchantId \<mapsto> updated)\<rparr>)))"

subsection \<open>getMerchantIndex and getNextPaymentIndex\<close>

text \<open>
  \<^verbatim>\<open>getMerchantIndex\<close> runs in \<^verbatim>\<open>prisma.$transaction\<close>: when a call inside throws, the
  transaction is rolled back and the store is the one before the call, so the error
  result carries no store.
\<close>

definition getMerchantIndex :: "store \<Rightarrow> string \<Rightarrow> error + (int \<times> store)" where
  "getMerchantIndex db merchantId =
     (case merchantHDIndex db merchantId of
        Some existing \<Rightarrow> Inr (merchant_index existing, db)
      | None \<Rightarrow>
          (let db1 = hDIndexCounter_upsert ''global'' db
           in case hDIndexCounter_update_increment ''global'' db1 of
                Inl e \<Rightarrow> Inl e
              | Inr (next_merchant_index, db2) \<Rightarrow>
                  (let assignedIndex = next_merchant_index - 1
                   in case merchantHDIndex_create merchantId
                             \<lparr>merchant_index = assignedIndex, payment_counter = 0\<rparr> db2 of
                        Inl e \<Rightarrow> Inl e
                      | Inr db3 \<Rightarrow> Inr (assignedIndex, db3))))"

text \<open>
  \<^verbatim>\<open>getNextPaymentIndex\<close> first awaits \<^verbatim>\<open>getMerchantIndex\<close> (its own transaction, kept
  when the later update throws), then increments the counter outside a transaction.
\<close>

definition getNextPaymentIndex :: "store \<Rightarrow> string \<Rightarrow> (error + int) \<times> store" where
  "getNextPaymentIndex db merchantId =
     (case getMerchantIndex db merchantId of
        Inl e \<Rightarrow> (Inl e, db)
      | Inr (_, db1) \<Rightarrow>
          (case merchantHDIndex_update_increment merchantId db1 of
             Inl e \<Rightarrow> (Inl e, db1)
           | Inr (updated, db2) \<Rightarrow> (Inr (payment_counter updated - 1), db2)))"

subsection \<open>Call sequences\<close>

text \<open>
  The two allocation functions are private; requests reach them through
  \<^verbatim>\<open>derivePaymentAddress\<close>. A history of the store is a list of calls, each run to its
  end before the next one starts, with the value each call returned.
\<close>

datatype call = GetMerchantIndex string | GetNextPaymentIndex string

fun exec :: "store \<Rightarrow> call \<Rightarrow> (error + int) \<times> store" where
  "exec db (GetMerchantIndex m) =
     (case getMerchantIndex db m of Inl e \<Rightarrow> (Inl e, db) | Inr (i, db') \<Rightarrow> (Inr i, db'))"
| "exec db (GetNextPaymentIndex m) = getNextPaymentIndex db m"

fun run :: "store \<Rightarrow> call list \<Rightarrow> (call \<times> (error + int)) list \<times> store" where
  "run db [] = ([], db)"
| "run db (c # cs) =
     (case exec db c of (r, db') \<Rightarrow>
        (case run db' cs of (tr, db'') \<Rightarrow> ((c, r) # tr, db'')))"

text \<open>What a history returned to the \<^verbatim>\<open>getNextPaymentIndex\<close> calls of one merchant, in order.\<close>

definition payment_results :: "string \<Rightarrow> (call \<times> (error + int)) list \<Rightarrow> (error + int) list" where
  "payment_results m tr = map snd (filter (\<lambda>(c, r). c = GetNextPaymentIndex m) tr)"

text \<open>Readings of the store: the index of a merchant, its counter (0 before the row
  exists), and the value the global counter row holds (0 before the row exists).\<close>

definition index_of :: "store \<Rightarrow> string \<Rightarrow> int option" where
  "index_of db m = map_option merchant_index (merchantHDIndex db m)"

definition counter_of :: "store \<Rightarrow> string \<Rightarrow> int" where
  "counter_of db m = (case merchantHDIndex db m of None \<Rightarrow> 0 | Some r \<Rightarrow> payment_counter r)"

definition next_index :: "store \<Rightarrow> int" where
  "next_index db = (case hDIndexCounter db ''global'' of None \<Rightarrow> 0 | Some n \<Rightarrow> n)"

section \<open>Strings, buffers and numbers of the JavaScript runtime\<close>

text \<open>
  A \<^verbatim>\<open>Buffer\<close> is a list of bytes, and \<^typ>\<open>char\<close> is the type of the 256 bytes
  (\<^term>\<open>of_char\<close> gives the number of a byte, \<^term>\<open>char_of\<close> the byte of a number modulo
  256). A JavaScript string is kept as the bytes of its UTF-8 encoding, so that reading a
  string as \<^verbatim>\<open>"utf8"\<close> and writing a buffer as \<^verbatim>\<open>"utf8"\<close> keep the list as it is;
  every character the service tests or inserts is ASCII.
\<close>

type_synonym buffer = "char list"

subsection \<open>Hexadecimal: \<^verbatim>\<open>buf.toString("hex")\<close> and \<^verbatim>\<open>Buffer.from(s, "hex")\<close>\<close>

definition hex_digit :: "nat \<Rightarrow> char" where
  "hex_digit n = (if n < 10 then char_of (48 + n) else char_of (87 + n))"

definition Buffer_toString_hex :: "buffer \<Rightarrow> string" where
  "Buffer_toString_hex b =
     concat (map (\<lambda>w. [hex_digit (of_char w div 16), hex_digit (of_char w mod 16)]) b)"

definition hex_val :: "char \<Rightarrow> nat option" where
  "hex_val c =
     (let n = (of_char c :: nat)
      in if 48 \<le> n \<and> n \<le> 57 then Some (n - 48)
         else if 97 \<le> n \<and> n \<le> 102 then Some (n - 87)
         else if 65 \<le> n \<and> n \<le> 70 then Some (n - 55)
         else None)"

definition is_hex_char :: "char \<Rightarrow> bool" where
  "is_hex_char c = (hex_val c \<noteq> None)"

text \<open>Decoding reads two characters at a time and stops, without an error, at the first
  pair that is not two hexadecimal digits; a last single character is dropped.\<close>

fun Buffer_from_hex :: "string \<Rightarrow> buffer" where
  "Buffer_from_hex (c1 # c2 # cs) =
     (case (hex_val c1, hex_val c2) of
        (Some h, Some l) \<Rightarrow> char_of (16 * h + l) # Buffer_from_hex cs
      | _ \<Rightarrow> [])"
| "Buffer_from_hex _ = []"

subsection \<open>\<^verbatim>\<open>String.prototype.split\<close> with a one-character separator\<close>

fun split :: "char \<Rightarrow> string \<Rightarrow> string list" where
  "split sep [] = [[]]"
| "split sep (c # cs) =
     (if c = sep then [] # split sep cs
      else (case split sep cs of p # ps \<Rightarrow> (c # p) # ps | [] \<Rightarrow> [[c]]))"

subsection \<open>Numbers in template strings, and \<^verbatim>\<open>parseInt\<close>\<close>

text \<open>An index is an integer. In a template string a JavaScript number that is an
  integer (of absolute value below \<open>10\<^sup>2\<^sup>1\<close>) prints as its decimal digits, with a
  minus sign when negative.\<close>

definition digit_char :: "nat \<Rightarrow> char" where
  "digit_char d = char_of (48 + d)"

fun decimal :: "nat \<Rightarrow> string" where
  "decimal n = (if n < 10 then [digit_char n] else decimal (n div 10) @ [digit_char (n mod 10)])"

declare decimal.simps [simp del]

definition Number_toString :: "int \<Rightarrow> string" where
  "Number_toString i = (if i < 0 then CHR ''-'' # decimal (nat (- i)) else decimal (nat i))"

definition is_digit :: "char \<Rightarrow> bool" where
  "is_digit c = (48 \<le> (of_char c :: nat) \<and> (of_char c :: nat) \<le> 57)"

text \<open>\<^verbatim>\<open>parseInt(s, 10)\<close> on a string of decimal digits.\<close>

definition parseInt_digits :: "string \<Rightarrow> nat" where
  "parseInt_digits s = foldl (\<lambda>a c. 10 * a + (of_char c - 48)) 0 s"

text \<open>\<^verbatim>\<open>JSON.stringify({ merchantIndex, paymentIndex })\<close> on two integers.\<close>

definition JSON_stringify_indices :: "int \<Rightarrow> int \<Rightarrow> string" where
  \<open>JSON_stringify_indices merchantIndex paymentIndex =
     ''{"merchantIndex":'' @ Number_toString merchantIndex @
     '',"paymentIndex":'' @ Number_toString paymentIndex @ ''}''\<close>

text \<open>The values \<^verbatim>\<open>JSON.parse\<close> returns (numbers restricted to the integers).\<close>

datatype json =
    JNull | JBool bool | JNumber int | JString string
  | JArray "json list" | JObject "(string \<times> json) list"

text \<open>The object \<^verbatim>\<open>{ merchantIndex: m, paymentIndex: p }\<close>.\<close>

definition indices_object :: "int \<Rightarrow> int \<Rightarrow> json" where
  "indices_object m p = JObject [(''merchantIndex'', JNumber m), (''paymentIndex'', JNumber p)]"

section \<open>The libraries the service calls\<close>

text \<open>
  The hash functions and the cipher of \<^verbatim>\<open>node:crypto\<close>, the Stellar SDK's \<^verbatim>\<open>Keypair\<close>,
  \<^verbatim>\<open>JSON.parse\<close> and the base64 coding of \<^verbatim>\<open>Buffer\<close> are not part of the sources. They
  are parameters of the model, collected in one record; a function that can throw
  returns an error value.
  \<^item> \<^verbatim>\<open>aes_256_gcm_encrypt key iv plaintext\<close> stands for
    \<^verbatim>\<open>cipher = createCipheriv("aes-256-gcm", key, iv)\<close>,
    \<^verbatim>\<open>enc = cipher.update(plaintext, "utf8", "hex") + cipher.final("hex")\<close> and
    \<^verbatim>\<open>tag = cipher.getAuthTag()\<close>; it returns the string \<^verbatim>\<open>enc\<close> and the buffer \<^verbatim>\<open>tag\<close>.
  \<^item> \<^verbatim>\<open>aes_256_gcm_decrypt key iv tag enc\<close> stands for
    \<^verbatim>\<open>decipher = createDecipheriv("aes-256-gcm", key, iv)\<close>, \<^verbatim>\<open>decipher.setAuthTag(tag)\<close> and
    \<^verbatim>\<open>decipher.update(enc, "hex", "utf8") + decipher.final("utf8")\<close>, on the string \<^verbatim>\<open>enc\<close>.
\<close>

record runtime =
  sha256 :: "buffer \<Rightarrow> buffer"
  sha512 :: "buffer \<Rightarrow> buffer"
  hmac_sha512 :: "buffer \<Rightarrow> buffer \<Rightarrow> buffer"
  aes_256_gcm_encrypt :: "buffer \<Rightarrow> buffer \<Rightarrow> string \<Rightarrow> error + (string \<times> buffer)"
  aes_256_gcm_decrypt :: "buffer \<Rightarrow> buffer \<Rightarrow> buffer \<Rightarrow> string \<Rightarrow> error + string"
  Keypair_fromRawEd25519Seed :: "buffer \<Rightarrow> error + (string \<times> string)"
  JSON_parse :: "string \<Rightarrow> error + json"
  Buffer_toString_base64 :: "buffer \<Rightarrow> string"
  Buffer_from_base64 :: "string \<Rightarrow> buffer"

subsection \<open>\<^verbatim>\<open>derivePath\<close> of the package ed25519-hd-key\<close>

text \<open>
  The package is not part of the sources either; the specification restates its
  algorithm (master key by HMAC-SHA512 under the key \<^verbatim>\<open>"ed25519 seed"\<close>, then one
  hardened child derivation per path segment, the index written as \<open>index + 0x80000000\<close>
  in four big-endian bytes). \<^verbatim>\<open>derivePath\<close> accepts the paths that match
  \<^verbatim>\<open>^m(\/[0-9]+')+$\<close> and throws \<^verbatim>\<open>Error('Invalid derivation path')\<close> on every other string;
  \<^verbatim>\<open>writeUInt32BE\<close> throws a \<^verbatim>\<open>RangeError\<close> on a value above \<open>2\<^sup>3\<^sup>2 - 1\<close>.
\<close>

definition HARDENED_OFFSET :: nat where
  "HARDENED_OFFSET = 0x80000000"

text \<open>The regular expression, read on the pieces between the slashes: the first piece is
  \<^verbatim>\<open>m\<close>, at least one piece follows, and each of them is one or more digits and a quote.\<close>

definition hardened_segment :: "string \<Rightarrow> bool" where
  "hardened_segment seg =
     (seg \<noteq> [] \<and> last seg = CHR 0x27 \<and> butlast seg \<noteq> [] \<and> list_all is_digit (butlast seg))"

definition pathRegex_test :: "string \<Rightarrow> bool" where
  "pathRegex_test path =
     (case split CHR ''/'' path of
        [] \<Rightarrow> False
      | m # segs \<Rightarrow> m = ''m'' \<and> segs \<noteq> [] \<and> list_all hardened_segment segs)"

text \<open>\<^verbatim>\<open>val.replace("'", "")\<close> removes the first quote.\<close>

definition replaceDerive :: "string \<Rightarrow> string" where
  "replaceDerive val = remove1 (CHR 0x27) val"

definition getMasterKeyFromSeed :: "runtime \<Rightarrow> string \<Rightarrow> buffer \<times> buffer" where
  "getMasterKeyFromSeed R seed =
     (let I = hmac_sha512 R ''ed25519 seed'' (Buffer_from_hex seed)
      in (take 32 I, drop 32 I))"

definition writeUInt32BE :: "nat \<Rightarrow> error + buffer" where
  "writeUInt32BE v =
     (if v > 0xFFFFFFFF then Inl ERR_OUT_OF_RANGE
      else Inr [char_of (v div 16777216), char_of (v div 65536),
                char_of (v div 256), char_of v])"

definition CKDPriv :: "runtime \<Rightarrow> buffer \<times> buffer \<Rightarrow> nat \<Rightarrow> error + (buffer \<times> buffer)" where
  "CKDPriv R keys index =
     (case keys of (key, chainCode) \<Rightarrow>
        (case writeUInt32BE index of
           Inl e \<Rightarrow> Inl e
         | Inr indexBuffer \<Rightarrow>
             (let data = [CHR 0x00] @ key @ indexBuffer;
                  I = hmac_sha512 R chainCode data
              in Inr (take 32 I, drop 32 I))))"

text \<open>\<^verbatim>\<open>segments.reduce((parentKeys, segment) => CKDPriv(parentKeys, segment + offset), ...)\<close>\<close>

fun derive_segments :: "runtime \<Rightarrow> buffer \<times> buffer \<Rightarrow> nat list \<Rightarrow> error + (buffer \<times> buffer)" where
  "derive_segments R keys [] = Inr keys"
| "derive_segments R keys (segment # segments) =
     (case CKDPriv R keys (segment + HARDENED_OFFSET) of
        Inl e \<Rightarrow> Inl e
      | Inr keys' \<Rightarrow> derive_segments R keys' segments)"

text \<open>\<^verbatim>\<open>derivePath(path, seed)\<close> returns \<^verbatim>\<open>{ key, chainCode }\<close>; the seed is a hex string.\<close>

definition derivePath :: "runtime \<Rightarrow> string \<Rightarrow> string \<Rightarrow> error + (buffer \<times> buffer)" where
  "derivePath R path seed =
     (if \<not> pathRegex_test path then Inl InvalidDerivationPath
      else
        (let keys = getMasterKeyFromSeed R seed;
             segments = map (\<lambda>el. parseInt_digits (replaceDerive el)) (tl (split CHR ''/'' path))
         in derive_segments R keys segments))"

section \<open>HDWalletService\<close>

subsection \<open>The service object and its KMS provider\<close>

text \<open>
  Of the interface \<^verbatim>\<open>IKMSProvider\<close> the service calls \<^verbatim>\<open>getMasterSeed\<close> and the two
  optional methods \<^verbatim>\<open>encrypt\<close> and \<^verbatim>\<open>decrypt\<close>. A provider answers every \<^verbatim>\<open>getMasterSeed\<close>
  call of one service alike. \<^verbatim>\<open>encrypt\<close> takes, as its first argument, the random bytes
  it draws during the call.

  The constructor called with a string builds its own provider, whose three methods
  turn back to the service (\<open>DirectSeed\<close>); called with a provider it keeps that one
  (\<open>Injected\<close>); called without an argument it asks \<^verbatim>\<open>KMSFactory.getProvider()\<close>, which is
  not part of the sources and is the first parameter of the constructor here.
\<close>

record kms_provider =
  provider_getMasterSeed :: "error + string"
  provider_encrypt :: "(buffer \<Rightarrow> string \<Rightarrow> error + string) option"
  provider_decrypt :: "(string \<Rightarrow> error + string) option"

datatype kms = DirectSeed | Injected kms_provider

record HDWalletService =
  masterSeed :: "string option"
  kmsProvider :: kms

datatype constructor_argument = SeedArgument string | ProviderArgument kms_provider | NoArgument

definition new_HDWalletService :: "kms_provider \<Rightarrow> constructor_argument \<Rightarrow> error + HDWalletService" where
  "new_HDWalletService factory_provider arg =
     (case arg of
        SeedArgument s \<Rightarrow>
          (if s = [] then Inl MasterSeedRequired
           else Inr \<lparr>masterSeed = Some s, kmsProvider = DirectSeed\<rparr>)
      | ProviderArgument p \<Rightarrow> Inr \<lparr>masterSeed = None, kmsProvider = Injected p\<rparr>
      | NoArgument \<Rightarrow> Inr \<lparr>masterSeed = None, kmsProvider = Injected factory_provider\<rparr>)"

text \<open>The value of \<^verbatim>\<open>this.masterSeed || "default-hd-key"\<close>, and the branch
  \<^verbatim>\<open>if (this.masterSeed)\<close>: \<^verbatim>\<open>null\<close> and the empty string are both false.\<close>

definition seed_or_default :: "HDWalletService \<Rightarrow> string" where
  "seed_or_default svc =
     (case masterSeed svc of
        None \<Rightarrow> ''default-hd-key''
      | Some s \<Rightarrow> (if s = [] then ''default-hd-key'' else s))"

text \<open>\<^verbatim>\<open>this.kmsProvider.getMasterSeed()\<close>. The provider of the string constructor returns
  \<^verbatim>\<open>this.masterSeed!\<close>, a field that the constructor has set and nothing resets; the case
  \<open>None\<close> is there for totality only.\<close>

definition kmsProvider_getMasterSeed :: "HDWalletService \<Rightarrow> error + string" where
  "kmsProvider_getMasterSeed svc =
     (case kmsProvider svc of
        DirectSeed \<Rightarrow> (case masterSeed svc of Some s \<Rightarrow> Inr s | None \<Rightarrow> Inl MasterSeedRequired)
      | Injected p \<Rightarrow> provider_getMasterSeed p)"

definition getMasterSeed :: "HDWalletService \<Rightarrow> error + (string \<times> HDWalletService)" where
  "getMasterSeed svc =
     (case masterSeed svc of
        Some s \<Rightarrow>
          (if s \<noteq> [] then Inr (s, svc)
           else (case kmsProvider_getMasterSeed svc of
                   Inl e \<Rightarrow> Inl e
                 | Inr s' \<Rightarrow> Inr (s', svc\<lparr>masterSeed := Some s'\<rparr>)))
      | None \<Rightarrow>
          (case kmsProvider_getMasterSeed svc of
             Inl e \<Rightarrow> Inl e
           | Inr s' \<Rightarrow> Inr (s', svc\<lparr>masterSeed := Some s'\<rparr>)))"

subsection \<open>getSeedBuffer\<close>

text \<open>The test \<^verbatim>\<open>/^[0-9a-fA-F]{64}$/.test(masterSeed)\<close>: exactly \<open>n\<close> characters of the
  class, then the end of the string.\<close>

fun match_exactly :: "(char \<Rightarrow> bool) \<Rightarrow> nat \<Rightarrow> string \<Rightarrow> bool" where
  "match_exactly P n [] = (n = 0)"
| "match_exactly P n (c # cs) = (n \<noteq> 0 \<and> P c \<and> match_exactly P (n - 1) cs)"

definition getSeedBuffer :: "runtime \<Rightarrow> HDWalletService \<Rightarrow> error + (buffer \<times> HDWalletService)" where
  "getSeedBuffer R svc =
     (case getMasterSeed svc of
        Inl e \<Rightarrow> Inl e
      | Inr (seed, svc') \<Rightarrow>
          (if match_exactly is_hex_char 64 seed
           then (let seed32 = Buffer_from_hex seed in Inr (seed32 @ seed32, svc'))
           else Inr (sha512 R seed, svc')))"

subsection \<open>Key derivation\<close>

definition STELLAR_COIN_TYPE :: int where
  "STELLAR_COIN_TYPE = 148"

text \<open>The template string \<^verbatim>\<open>`m/44'/${STELLAR_COIN_TYPE}'/${merchantIndex}'/${paymentIndex}'`\<close>\<close>

definition path_of :: "int \<Rightarrow> int \<Rightarrow> string" where
  "path_of merchantIndex paymentIndex =
     ''m/44'/'' @ Number_toString STELLAR_COIN_TYPE @ [CHR 0x27] @ ''/'' @
     Number_toString merchantIndex @ [CHR 0x27] @ ''/'' @
     Number_toString paymentIndex @ [CHR 0x27]"

record derived_keypair =
  kp_publicKey :: string
  kp_secretKey :: string
  kp_derivationPath :: string

text \<open>A call that throws after the seed was fetched leaves the seed cached, so these
  functions return the service object beside the result.\<close>

definition deriveKeypairFromPath ::
  "runtime \<Rightarrow> HDWalletService \<Rightarrow> int \<Rightarrow> int \<Rightarrow> (error + derived_keypair) \<times> HDWalletService" where
  "deriveKeypairFromPath R svc merchantIndex paymentIndex =
     (let path = path_of merchantIndex paymentIndex
      in case getSeedBuffer R svc of
           Inl e \<Rightarrow> (Inl e, svc)
         | Inr (seedBuffer, svc') \<Rightarrow>
             (case derivePath R path (Buffer_toString_hex seedBuffer) of
                Inl e \<Rightarrow> (Inl e, svc')
              | Inr (key, chainCode) \<Rightarrow>
                  (case Keypair_fromRawEd25519Seed R key of
                     Inl e \<Rightarrow> (Inl e, svc')
                   | Inr (pk, sk) \<Rightarrow>
                       (Inr \<lparr>kp_publicKey = pk, kp_secretKey = sk, kp_derivationPath = path\<rparr>,
                        svc'))))"

definition regenerateKeypairFromPath ::
  "runtime \<Rightarrow> HDWalletService \<Rightarrow> string \<Rightarrow> (error + (string \<times> string)) \<times> HDWalletService" where
  "regenerateKeypairFromPath R svc derivationPath =
     (case getSeedBuffer R svc of
        Inl e \<Rightarrow> (Inl e, svc)
      | Inr (seedBuffer, svc') \<Rightarrow>
          (case derivePath R derivationPath (Buffer_toString_hex seedBuffer) of
             Inl e \<Rightarrow> (Inl e, svc')
           | Inr (key, chainCode) \<Rightarrow>
               (case Keypair_fromRawEd25519Seed R key of
                  Inl e \<Rightarrow> (Inl e, svc')
                | Inr (pk, sk) \<Rightarrow> (Inr (pk, sk), svc'))))"




subsection \<open>Encryption of the indices\<close>

text \<open>The key of the local cipher: SHA-256 of \<^verbatim>\<open>seed + ":hd-key-data"\<close>.\<close>

definition local_key :: "runtime \<Rightarrow> HDWalletService \<Rightarrow> buffer" where
  "local_key R svc = sha256 R (seed_or_default svc @ '':hd-key-data'')"

text \<open>\<^verbatim>\<open>_localEncrypt\<close>; \<open>iv\<close> is what \<^verbatim>\<open>crypto.randomBytes(16)\<close> returned.\<close>

definition localEncrypt :: "runtime \<Rightarrow> HDWalletService \<Rightarrow> buffer \<Rightarrow> string \<Rightarrow> error + string" where
  "localEncrypt R svc iv plaintext =
     (let key = local_key R svc
      in case aes_256_gcm_encrypt R key iv plaintext of
           Inl e \<Rightarrow> Inl e
         | Inr (enc, tag) \<Rightarrow>
             Inr (Buffer_toString_hex iv @ '':'' @ Buffer_toString_hex tag @ '':'' @ enc))"

definition localDecrypt :: "runtime \<Rightarrow> HDWalletService \<Rightarrow> string \<Rightarrow> error + string" where
  "localDecrypt R svc ciphertext =
     (let parts = split CHR '':'' ciphertext
      in if length parts \<noteq> 3 then Inl InvalidEncryptedKeyDataFormat
         else
           (let key = local_key R svc;
                iv = Buffer_from_hex (parts ! 0);
                tag = Buffer_from_hex (parts ! 1)
            in aes_256_gcm_decrypt R key iv tag (parts ! 2)))"

text \<open>\<^verbatim>\<open>this.kmsProvider.encrypt\<close> and \<^verbatim>\<open>this.kmsProvider.decrypt\<close>: the provider of the
  string constructor has both and forwards them to the two local functions.\<close>

definition kmsProvider_encrypt ::
  "runtime \<Rightarrow> HDWalletService \<Rightarrow> (buffer \<Rightarrow> string \<Rightarrow> error + string) option" where
  "kmsProvider_encrypt R svc =
     (case kmsProvider svc of
        DirectSeed \<Rightarrow> Some (localEncrypt R svc)
      | Injected p \<Rightarrow> provider_encrypt p)"

definition kmsProvider_decrypt ::
  "runtime \<Rightarrow> HDWalletService \<Rightarrow> (string \<Rightarrow> error + string) option" where
  "kmsProvider_decrypt R svc =
     (case kmsProvider svc of
        DirectSeed \<Rightarrow> Some (localDecrypt R svc)
      | Injected p \<Rightarrow> provider_decrypt p)"

definition encryptKeyData ::
  "runtime \<Rightarrow> HDWalletService \<Rightarrow> buffer \<Rightarrow> int \<Rightarrow> int \<Rightarrow> error + string" where
  "encryptKeyData R svc random merchantIndex paymentIndex =
     (let payload = JSON_stringify_indices merchantIndex paymentIndex
      in case kmsProvider_encrypt R svc of
           Some encrypt \<Rightarrow> encrypt random payload
         | None \<Rightarrow> localEncrypt R svc random payload)"

definition decryptKeyData :: "runtime \<Rightarrow> HDWalletService \<Rightarrow> string \<Rightarrow> error + json" where
  "decryptKeyData R svc encrypted =
     (case (case kmsProvider_decrypt R svc of
              Some decrypt \<Rightarrow> decrypt encrypted
            | None \<Rightarrow> localDecrypt R svc encrypted) of
        Inl e \<Rightarrow> Inl e
      | Inr payload \<Rightarrow> JSON_parse R payload)"

subsection \<open>derivePaymentAddress\<close>

record DerivedAddress =
  publicKey :: string
  merchantIndex :: int
  paymentIndex :: int
  derivationPath :: string

definition derivePaymentAddress ::
  "runtime \<Rightarrow> HDWalletService \<Rightarrow> store \<Rightarrow> string \<Rightarrow> string \<Rightarrow>
     (error + DerivedAddress) \<times> HDWalletService \<times> store" where
  "derivePaymentAddress R svc db merchantId paymentId =
     (case getMerchantIndex db merchantId of
        Inl e \<Rightarrow> (Inl e, svc, db)
      | Inr (mIndex, db1) \<Rightarrow>
          (case getNextPaymentIndex db1 merchantId of
             (Inl e, db2) \<Rightarrow> (Inl e, svc, db2)
           | (Inr pIndex, db2) \<Rightarrow>
               (case deriveKeypairFromPath R svc mIndex pIndex of
                  (Inl e, svc') \<Rightarrow> (Inl e, svc', db2)
                | (Inr kp, svc') \<Rightarrow>
                    (Inr \<lparr>publicKey = kp_publicKey kp, merchantIndex = mIndex,
                          paymentIndex = pIndex, derivationPath = kp_derivationPath kp\<rparr>,
                     svc', db2))))"

section \<open>AWSKMSProvider: envelope encryption\<close>

text \<open>
  Of \<^verbatim>\<open>fluxapay_backend/src/services/kms/AWSKMSProvider.ts\<close> the two methods \<^verbatim>\<open>encrypt\<close>
  and \<^verbatim>\<open>decrypt\<close> are modelled. The KMS client is a parameter: what it answers to
  \<^verbatim>\<open>GenerateDataKeyCommand\<close> (the fields \<^verbatim>\<open>Plaintext\<close> and \<^verbatim>\<open>CiphertextBlob\<close>) and to
  \<^verbatim>\<open>DecryptCommand\<close> on a \<^verbatim>\<open>CiphertextBlob\<close>. Both methods catch every error and throw one
  error of their own. \<^verbatim>\<open>getMasterSeed\<close> of this provider caches by the clock, which the
  model leaves out: its answer is a parameter.
\<close>

record kms_client =
  GenerateDataKey :: "error + (buffer \<times> buffer)"
  Decrypt :: "buffer \<Rightarrow> error + buffer"

definition AWSKMSProvider_encrypt ::
  "runtime \<Rightarrow> kms_client \<Rightarrow> buffer \<Rightarrow> string \<Rightarrow> error + string" where
  "AWSKMSProvider_encrypt R client iv data =
     (case GenerateDataKey client of
        Inl e \<Rightarrow> Inl (ProviderError ''Failed to encrypt data with AWS KMS'')
      | Inr (plainDataKey, ciphertextBlob) \<Rightarrow>
          (let encryptedDataKey = Buffer_toString_base64 R ciphertextBlob
           in case aes_256_gcm_encrypt R plainDataKey iv data of
                Inl e \<Rightarrow> Inl (ProviderError ''Failed to encrypt data with AWS KMS'')
              | Inr (enc, tag) \<Rightarrow>
                  Inr (encryptedDataKey @ ''|'' @ Buffer_toString_hex iv @ ''|'' @
                       Buffer_toString_hex tag @ ''|'' @ enc)))"

text \<open>\<^verbatim>\<open>const [encryptedDataKey, ivHex, tagHex, ciphertext] = data.split("|")\<close> takes the
  first four fields and ignores any further one; with fewer than four, a later call
  throws on \<^verbatim>\<open>undefined\<close> and the method throws its error.\<close>

definition AWSKMSProvider_decrypt :: "runtime \<Rightarrow> kms_client \<Rightarrow> string \<Rightarrow> error + string" where
  "AWSKMSProvider_decrypt R client data =
     (case split CHR ''|'' data of
        encryptedDataKey # ivHex # tagHex # ciphertext # _ \<Rightarrow>
          (case Decrypt client (Buffer_from_base64 R encryptedDataKey) of
             Inl e \<Rightarrow> Inl (ProviderError ''Failed to decrypt data with AWS KMS'')
           | Inr plainDataKey \<Rightarrow>
               (case aes_256_gcm_decrypt R plainDataKey (Buffer_from_hex ivHex)
                       (Buffer_from_hex tagHex) ciphertext of
                  Inl e \<Rightarrow> Inl (ProviderError ''Failed to decrypt data with AWS KMS'')
                | Inr dec \<Rightarrow> Inr dec))
      | _ \<Rightarrow> Inl (ProviderError ''Failed to decrypt data with AWS KMS''))"

definition AWSKMSProvider :: "runtime \<Rightarrow> kms_client \<Rightarrow> error + string \<Rightarrow> kms_provider" where
  "AWSKMSProvider R client seed =
     \<lparr>provider_getMasterSeed = seed,
      provider_encrypt = Some (AWSKMSProvider_encrypt R client),
      provider_decrypt = Some (AWSKMSProvider_decrypt R client)\<rparr>"

section \<open>The vocabulary of the statements\<close>

subsection \<open>Seed expansion\<close>

text \<open>
  The specification of the seed expander: a seed of exactly 64 hexadecimal characters is
  decoded to 32 bytes, which are written twice; any other seed is hashed with SHA-512.
  The 32 bytes that a hexadecimal string denotes are those whose hexadecimal writing is
  the string, letter case apart.
\<close>

definition lower_hex :: "char \<Rightarrow> char" where
  "lower_hex c =
     (if 65 \<le> (of_char c :: nat) \<and> (of_char c :: nat) \<le> 70 then char_of (of_char c + 32 :: nat)
      else c)"

definition seed_expansion :: "runtime \<Rightarrow> string \<Rightarrow> buffer \<Rightarrow> bool" where
  "seed_expansion R seed seed64 \<longleftrightarrow>
     (if length seed = 64 \<and> list_all is_hex_char seed
      then \<exists>seed32. length seed32 = 32 \<and> Buffer_toString_hex seed32 = map lower_hex seed \<and>
             seed64 = seed32 @ seed32
      else seed64 = sha512 R seed)"

subsection \<open>Derivation paths\<close>

text \<open>The strings \<^verbatim>\<open>m/D'/D'/.../D'\<close> with one segment or more, each \<^verbatim>\<open>D\<close> one or more
  decimal digits.\<close>

definition digit_string :: "string \<Rightarrow> bool" where
  "digit_string d \<longleftrightarrow> d \<noteq> [] \<and> list_all is_digit d"

definition hardened_path :: "string list \<Rightarrow> string" where
  "hardened_path ds = ''m'' @ concat (map (\<lambda>d. CHR ''/'' # d @ [CHR 0x27]) ds)"

definition accepted_paths :: "string set" where
  "accepted_paths = {hardened_path ds | ds. ds \<noteq> [] \<and> list_all digit_string ds}"



subsection \<open>Keys of the local cipher\<close>

definition default_key :: "runtime \<Rightarrow> buffer" where
  "default_key R = sha256 R ''default-hd-key:hd-key-data''"

definition seed_key :: "runtime \<Rightarrow> string \<Rightarrow> buffer" where
  "seed_key R seed = sha256 R (seed @ '':hd-key-data'')"

subsection \<open>Invariant of the store\<close>

text \<open>The indices handed out are exactly the numbers below the global counter, each to
  one merchant.\<close>

definition store_inv :: "store \<Rightarrow> bool" where
  "store_inv db \<longleftrightarrow>
     0 \<le> next_index db \<and>
     (\<forall>m i. index_of db m = Some i \<longrightarrow> 0 \<le> i \<and> i < next_index db) \<and>
     (\<forall>m1 m2 i. index_of db m1 = Some i \<longrightarrow> index_of db m2 = Some i \<longrightarrow> m1 = m2) \<and>
     (\<forall>i. 0 \<le> i \<longrightarrow> i < next_index db \<longrightarrow> (\<exists>m. index_of db m = Some i))"

section \<open>What is assumed of the libraries\<close>

text \<open>
  The statements about encryption and about lengths hold for libraries that keep their
  contract; each contract is a predicate on the record of libraries.
  \<^item> The digests have their lengths.
  \<^item> With a key of 32 bytes and an initialisation vector of 16 bytes the cipher encrypts,
    and decrypting the result under the same key, vector and tag returns the plaintext.
  \<^item> The ciphertext that the cipher returns as \<^verbatim>\<open>"hex"\<close> is made of hexadecimal digits.
  \<^item> Decoding base64 returns the buffer that was encoded, and base64 text has no bar.
  \<^item> \<^verbatim>\<open>JSON.parse\<close> reads back the object that \<^verbatim>\<open>JSON.stringify\<close> printed.
\<close>

definition sha256_length :: "runtime \<Rightarrow> bool" where
  "sha256_length R \<longleftrightarrow> (\<forall>x. length (sha256 R x) = 32)"

definition sha512_length :: "runtime \<Rightarrow> bool" where
  "sha512_length R \<longleftrightarrow> (\<forall>x. length (sha512 R x) = 64)"

definition gcm_roundtrip :: "runtime \<Rightarrow> bool" where
  "gcm_roundtrip R \<longleftrightarrow>
     (\<forall>key iv plaintext. length key = 32 \<longrightarrow> length iv = 16 \<longrightarrow>
        (\<exists>enc tag. aes_256_gcm_encrypt R key iv plaintext = Inr (enc, tag) \<and>
                   aes_256_gcm_decrypt R key iv tag enc = Inr plaintext))"

definition gcm_hex_output :: "runtime \<Rightarrow> bool" where
  "gcm_hex_output R \<longleftrightarrow>
     (\<forall>key iv plaintext enc tag.
        aes_256_gcm_encrypt R key iv plaintext = Inr (enc, tag) \<longrightarrow> list_all is_hex_char enc)"

definition base64_roundtrip :: "runtime \<Rightarrow> bool" where
  "base64_roundtrip R \<longleftrightarrow>
     (\<forall>b. Buffer_from_base64 R (Buffer_toString_base64 R b) = b \<and>
          CHR ''|'' \<notin> set (Buffer_toString_base64 R b))"

definition JSON_parse_indices :: "runtime \<Rightarrow> bool" where
  "JSON_parse_indices R \<longleftrightarrow>
     (\<forall>m p. JSON_parse R (JSON_stringify_indices m p) = Inr (indices_object m p))"

text \<open>The KMS service generates a data key of 32 bytes and decrypts the wrapped key it
  returned to that data key.\<close>

definition kms_client_contract :: "kms_client \<Rightarrow> bool" where
  "kms_client_contract client \<longleftrightarrow>
     (\<exists>plainDataKey ciphertextBlob.
        GenerateDataKey client = Inr (plainDataKey, ciphertextBlob) \<and>
        length plainDataKey = 32 \<and>
        Decrypt client ciphertextBlob = Inr plainDataKey)"

text \<open>The cipher keeps two keys apart when nothing sealed under the first opens under
  the second.\<close>

definition gcm_rejects :: "runtime \<Rightarrow> buffer \<Rightarrow> buffer \<Rightarrow> bool" where
  "gcm_rejects R sealing_key opening_key \<longleftrightarrow>
     (\<forall>iv plaintext enc tag.
        aes_256_gcm_encrypt R sealing_key iv plaintext = Inr (enc, tag) \<longrightarrow>
        aes_256_gcm_decrypt R opening_key iv tag enc = Inl AuthenticationFailed)"

text \<open>A provider that has \<^verbatim>\<open>encrypt\<close> and \<^verbatim>\<open>decrypt\<close> keeps its contract when \<^verbatim>\<open>decrypt\<close>
  returns what \<^verbatim>\<open>encrypt\<close> was given; a provider may also have neither.\<close>

definition provider_roundtrip :: "kms_provider \<Rightarrow> bool" where
  "provider_roundtrip p \<longleftrightarrow>
     (case (provider_encrypt p, provider_decrypt p) of
        (Some encrypt, Some decrypt) \<Rightarrow>
          (\<forall>random data. length random = 16 \<longrightarrow>
             (\<exists>c. encrypt random data = Inr c \<and> decrypt c = Inr data))
      | (None, None) \<Rightarrow> True
      | _ \<Rightarrow> False)"

definition kms_roundtrip :: "kms \<Rightarrow> bool" where
  "kms_roundtrip k \<longleftrightarrow> (case k of DirectSeed \<Rightarrow> True | Injected p \<Rightarrow> provider_roundtrip p)"

text \<open>The service decrypts with its own \<^verbatim>\<open>_localDecrypt\<close>: it was built from a seed
  string, or its provider has no \<^verbatim>\<open>decrypt\<close>.\<close>

definition decrypts_locally :: "HDWalletService \<Rightarrow> bool" where
  "decrypts_locally svc \<longleftrightarrow>
     (case kmsProvider svc of DirectSeed \<Rightarrow> True | Injected p \<Rightarrow> provider_decrypt p = None)"

definition encrypts_locally :: "HDWalletService \<Rightarrow> bool" where
  "encrypts_locally svc \<longleftrightarrow>
     (case kmsProvider svc of DirectSeed \<Rightarrow> True | Injected p \<Rightarrow> provider_encrypt p = None)"

section \<open>A small instance of the libraries, for closed examples\<close>

text \<open>
  To run the model on concrete inputs the record of libraries needs values. The instance
  below keeps the contracts above and is small enough to evaluate; it is no
  cryptography. Digests pad or cut their input to the digest length; the cipher reverses
  the plaintext and its tag is made of the first bytes of the key and of the sum of the
  bytes of vector and ciphertext;
  the parser reads the objects \<^verbatim>\<open>{"merchantIndex":m,"paymentIndex":p}\<close> only; the
  hexadecimal writing stands in for base64.
\<close>

definition example_sha256 :: "buffer \<Rightarrow> buffer" where
  "example_sha256 x = take 32 (x @ replicate 32 (CHR 0x00))"

definition example_sha512 :: "buffer \<Rightarrow> buffer" where
  "example_sha512 x = take 64 (x @ replicate 64 (CHR 0x00))"

definition example_hmac_sha512 :: "buffer \<Rightarrow> buffer \<Rightarrow> buffer" where
  "example_hmac_sha512 k x = take 64 (rev x @ k @ replicate 64 (CHR 0x00))"

definition example_tag :: "buffer \<Rightarrow> buffer \<Rightarrow> buffer \<Rightarrow> buffer" where
  "example_tag key iv enc =
     take 15 (key @ replicate 15 (CHR 0x00)) @ [char_of (sum_list (map of_char (iv @ enc)) :: nat)]"

definition example_gcm_encrypt :: "buffer \<Rightarrow> buffer \<Rightarrow> string \<Rightarrow> error + (string \<times> buffer)" where
  "example_gcm_encrypt key iv plaintext =
     (let enc = rev plaintext in Inr (Buffer_toString_hex enc, example_tag key iv enc))"

definition example_gcm_decrypt :: "buffer \<Rightarrow> buffer \<Rightarrow> buffer \<Rightarrow> string \<Rightarrow> error + string" where
  "example_gcm_decrypt key iv tag enc =
     (if tag = example_tag key iv (Buffer_from_hex enc) then Inr (rev (Buffer_from_hex enc))
      else Inl AuthenticationFailed)"

definition example_Keypair :: "buffer \<Rightarrow> error + (string \<times> string)" where
  "example_Keypair key =
     (if length key = 32
      then Inr (CHR ''G'' # Buffer_toString_hex key, CHR ''S'' # Buffer_toString_hex key)
      else Inl KeypairError)"

fun strip_prefix :: "string \<Rightarrow> string \<Rightarrow> string option" where
  "strip_prefix [] s = Some s"
| "strip_prefix (p # ps) [] = None"
| "strip_prefix (p # ps) (c # cs) = (if p = c then strip_prefix ps cs else None)"

definition read_nat :: "string \<Rightarrow> (nat \<times> string) option" where
  "read_nat s =
     (let ds = takeWhile is_digit s
      in if ds = [] then None else Some (parseInt_digits ds, dropWhile is_digit s))"

definition read_int :: "string \<Rightarrow> (int \<times> string) option" where
  "read_int s =
     (case s of
        [] \<Rightarrow> None
      | c # cs \<Rightarrow>
          (if c = CHR ''-'' then map_option (\<lambda>(n, r). (- int n, r)) (read_nat cs)
           else map_option (\<lambda>(n, r). (int n, r)) (read_nat s)))"

definition example_JSON_parse :: "string \<Rightarrow> error + json" where
  \<open>example_JSON_parse s =
     (case strip_prefix ''{"merchantIndex":'' s of
        None \<Rightarrow> Inl SyntaxError
      | Some r1 \<Rightarrow>
          (case read_int r1 of
             None \<Rightarrow> Inl SyntaxError
           | Some (m, r2) \<Rightarrow>
               (case strip_prefix '',"paymentIndex":'' r2 of
                  None \<Rightarrow> Inl SyntaxError
                | Some r3 \<Rightarrow>
                    (case read_int r3 of
                       None \<Rightarrow> Inl SyntaxError
                     | Some (p, r4) \<Rightarrow>
                         (if r4 = ''}'' then Inr (indices_object m p) else Inl SyntaxError)))))\<close>

definition example_runtime :: runtime where
  "example_runtime =
     \<lparr>sha256 = example_sha256, sha512 = example_sha512, hmac_sha512 = example_hmac_sha512,
      aes_256_gcm_encrypt = example_gcm_encrypt, aes_256_gcm_decrypt = example_gcm_decrypt,
      Keypair_fromRawEd25519Seed = example_Keypair, JSON_parse = example_JSON_parse,
      Buffer_toString_base64 = Buffer_toString_hex, Buffer_from_base64 = Buffer_from_hex\<rparr>"

text \<open>Two services: one built from the seed of the test suite, one built on a provider
  that has a seed but neither \<^verbatim>\<open>encrypt\<close> nor \<^verbatim>\<open>decrypt\<close>.\<close>

definition test_seed :: string where
  "test_seed = ''test-master-seed-bip44-deterministic-1234567890abcdef''"

definition seed_service :: HDWalletService where
  "seed_service = \<lparr>masterSeed = Some test_seed, kmsProvider = DirectSeed\<rparr>"

definition bare_provider :: "string \<Rightarrow> kms_provider" where
  "bare_provider seed =
     \<lparr>provider_getMasterSeed = Inr seed, provider_encrypt = None, provider_decrypt = None\<rparr>"

definition provider_service :: "string \<Rightarrow> HDWalletService" where
  "provider_service seed = \<lparr>masterSeed = None, kmsProvider = Injected (bare_provider seed)\<rparr>"

definition example_iv :: buffer where
  "example_iv = ''0123456789abcdef''"

text \<open>A service built from a seed of 64 hexadecimal characters, and the service on a
  bare provider after it has fetched the seed.\<close>

definition hex_seed :: string where
  "hex_seed = ''000102030405060708090A0B0C0D0E0F101112131415161718191a1b1c1d1e1f''"

definition hex_seed_service :: HDWalletService where
  "hex_seed_service = \<lparr>masterSeed = Some hex_seed, kmsProvider = DirectSeed\<rparr>"

definition fetched_service :: "string \<Rightarrow> HDWalletService" where
  "fetched_service seed = \<lparr>masterSeed = Some seed, kmsProvider = Injected (bare_provider seed)\<rparr>"

text \<open>What \<^verbatim>\<open>derivePaymentAddress("merchant_A", "payment_1")\<close> returns on the empty store.\<close>

definition example_address :: DerivedAddress where
  "example_address =
     \<lparr>publicKey = ''G0000008000000000000000666564636261303938373635343332312d63697473'',
      merchantIndex = 0, paymentIndex = 0,
      derivationPath = ''m/44'/148'/0'/0'' @ [CHR 0x27]\<rparr>"

text \<open>The blob that \<^verbatim>\<open>encryptKeyData(3, 7)\<close> returns under the seed of the test suite and
  the vector above; the same blob with the letters of its tag in upper case; the same
  blob with its last four characters replaced, as the test suite does; and the blob that
  \<^verbatim>\<open>encryptKeyData(3, 7)\<close> returns under the key of \<^verbatim>\<open>"default-hd-key"\<close>.\<close>

definition sealed_blob :: string where
  "sealed_blob = ''30313233343536373839616263646566:746573742d6d61737465722d7365652c:7d373a227865646e49746e656d796170222c333a227865646e49746e61686372656d227b''"



definition default_sealed_blob :: string where
  "default_sealed_blob = ''30313233343536373839616263646566:64656661756c742d68642d6b65793a2c:7d373a227865646e49746e656d796170222c333a227865646e49746e61686372656d227b''"

text \<open>A KMS client that hands out one data key and wraps it by reversing it, a service
  on the AWS provider with that client, and the blob that \<^verbatim>\<open>encryptKeyData(3, 7)\<close> returns
  on that service.\<close>

definition example_kms_client :: kms_client where
  "example_kms_client =
     \<lparr>GenerateDataKey =
        Inr (''0123456789abcdef0123456789abcdef'', ''fedcba9876543210fedcba9876543210''),
      Decrypt = (\<lambda>blob. Inr (rev blob))\<rparr>"

definition aws_service :: HDWalletService where
  "aws_service =
     \<lparr>masterSeed = None,
      kmsProvider = Injected (AWSKMSProvider example_runtime example_kms_client (Inr test_seed))\<rparr>"

definition aws_sealed_blob :: string where
  "aws_sealed_blob = ''6665646362613938373635343332313066656463626139383736353433323130|30313233343536373839616263646566|3031323334353637383961626364652c|7d373a227865646e49746e656d796170222c333a227865646e49746e61686372656d227b''"

section \<open>Lemmas\<close>

subsection \<open>The store and its histories\<close>

lemma getMerchantIndex_existing:
  "merchantHDIndex db m = Some r \<Longrightarrow> getMerchantIndex db m = Inr (merchant_index r, db)"
  by (simp add: getMerchantIndex_def)

lemma getMerchantIndex_fresh:
  "merchantHDIndex db m = None \<Longrightarrow>
   getMerchantIndex db m =
     Inr (next_index db,
          db\<lparr>hDIndexCounter := (hDIndexCounter db)(''global'' \<mapsto> next_index db + 1),
             merchantHDIndex := (merchantHDIndex db)(m \<mapsto> \<lparr>merchant_index = next_index db, payment_counter = 0\<rparr>)\<rparr>)"
  by (auto simp add: getMerchantIndex_def hDIndexCounter_upsert_def next_index_def
      hDIndexCounter_update_increment_def merchantHDIndex_create_def Let_def split: option.splits)

lemma getMerchantIndex_total: "\<exists>i db'. getMerchantIndex db m = Inr (i, db')"
  by (cases "merchantHDIndex db m") (simp_all add: getMerchantIndex_existing getMerchantIndex_fresh)

lemma getMerchantIndex_known:
  "index_of db m = Some i \<Longrightarrow> getMerchantIndex db m = Inr (i, db)"
  by (auto simp add: index_of_def getMerchantIndex_existing)

lemma getMerchantIndex_new:
  assumes "index_of db m = None" and "getMerchantIndex db m = Inr (i, db')"
  shows "i = next_index db" and "index_of db' = (index_of db)(m \<mapsto> next_index db)"
    and "next_index db' = next_index db + 1" and "counter_of db' = counter_of db"
proof -
  from assms(1) have none: "merchantHDIndex db m = None" by (simp add: index_of_def)
  from getMerchantIndex_fresh[OF none] assms(2)
  have i: "i = next_index db" and db': "db' = db\<lparr>hDIndexCounter := (hDIndexCounter db)(''global'' \<mapsto> next_index db + 1),
             merchantHDIndex := (merchantHDIndex db)(m \<mapsto> \<lparr>merchant_index = next_index db, payment_counter = 0\<rparr>)\<rparr>"
    by simp_all
  show "i = next_index db" by (rule i)
  show "index_of db' = (index_of db)(m \<mapsto> next_index db)"
    by (rule ext) (simp add: db' index_of_def)
  show "next_index db' = next_index db + 1" by (simp add: db' next_index_def)
  show "counter_of db' = counter_of db"
    by (rule ext) (simp add: db' counter_of_def none)
qed

lemma update_increment_existing:
  "merchantHDIndex db m = Some r \<Longrightarrow>
   merchantHDIndex_update_increment m db =
     Inr (r\<lparr>payment_counter := payment_counter r + 1\<rparr>,
          db\<lparr>merchantHDIndex := (merchantHDIndex db)(m \<mapsto> r\<lparr>payment_counter := payment_counter r + 1\<rparr>)\<rparr>)"
  by (simp add: merchantHDIndex_update_increment_def Let_def)

lemma getMerchantIndex_row:
  "getMerchantIndex db m = Inr (i, db') \<Longrightarrow>
   \<exists>r. merchantHDIndex db' m = Some r \<and> merchant_index r = i \<and> payment_counter r = counter_of db m"
  by (cases "merchantHDIndex db m")
     (auto simp add: getMerchantIndex_existing getMerchantIndex_fresh counter_of_def)

lemma getNextPaymentIndex_split:
  assumes "getMerchantIndex db m = Inr (i, db1)" and "getNextPaymentIndex db m = (r, db')"
  shows "r = Inr (counter_of db1 m)" and "index_of db' = index_of db1"
    and "next_index db' = next_index db1"
    and "counter_of db' = (counter_of db1)(m := counter_of db1 m + 1)"
proof -
  from getMerchantIndex_row[OF assms(1)] obtain row where
    row: "merchantHDIndex db1 m = Some row" "merchant_index row = i"
    by blast
  have c: "counter_of db1 m = payment_counter row" by (simp add: counter_of_def row)
  from assms row have r: "r = Inr (payment_counter row)"
    and db': "db' = db1\<lparr>merchantHDIndex := (merchantHDIndex db1)(m \<mapsto> row\<lparr>payment_counter := payment_counter row + 1\<rparr>)\<rparr>"
    by (simp_all add: getNextPaymentIndex_def update_increment_existing)
  show "r = Inr (counter_of db1 m)" by (simp add: r c)
  show "index_of db' = index_of db1" by (rule ext) (simp add: db' index_of_def row)
  show "next_index db' = next_index db1" by (simp add: db' next_index_def)
  show "counter_of db' = (counter_of db1)(m := counter_of db1 m + 1)"
    by (rule ext) (simp add: db' counter_of_def row)
qed

lemma exec_effect:
  assumes "exec db c = (r, db')"
  shows "(index_of db' = index_of db \<and> next_index db' = next_index db) \<or>
         (\<exists>m. index_of db m = None \<and> index_of db' = (index_of db)(m \<mapsto> next_index db) \<and>
              next_index db' = next_index db + 1)"
proof -
  have gm: "(index_of db1 = index_of db \<and> next_index db1 = next_index db) \<or>
         (index_of db m = None \<and> index_of db1 = (index_of db)(m \<mapsto> next_index db) \<and>
              next_index db1 = next_index db + 1)"
    if "getMerchantIndex db m = Inr (i, db1)" for m i db1
  proof (cases "index_of db m")
    case None
    from getMerchantIndex_new(2,3)[OF None that] None show ?thesis by simp
  next
    case (Some j)
    from getMerchantIndex_known[OF Some] that show ?thesis by simp
  qed
  show ?thesis
  proof (cases c)
    case (GetMerchantIndex m)
    obtain i db1 where g: "getMerchantIndex db m = Inr (i, db1)"
      using getMerchantIndex_total by blast
    with assms GetMerchantIndex have "db' = db1" by simp
    with gm[OF g] show ?thesis by blast
  next
    case (GetNextPaymentIndex m)
    obtain i db1 where g: "getMerchantIndex db m = Inr (i, db1)"
      using getMerchantIndex_total by blast
    from assms GetNextPaymentIndex have "getNextPaymentIndex db m = (r, db')" by simp
    from getNextPaymentIndex_split(2,3)[OF g this] gm[OF g] show ?thesis by auto
  qed
qed

lemma store_inv_empty: "store_inv empty_store"
  by (simp add: store_inv_def empty_store_def next_index_def index_of_def)

lemma store_inv_extend:
  assumes inv: "store_inv db" and none: "index_of db m = None"
    and ix: "index_of db' = (index_of db)(m \<mapsto> next_index db)"
    and nx: "next_index db' = next_index db + 1"
  shows "store_inv db'"
proof -
  from inv have n0: "0 \<le> next_index db"
    and bound: "\<And>k i. index_of db k = Some i \<Longrightarrow> 0 \<le> i \<and> i < next_index db"
    and inj: "\<And>k1 k2 i. index_of db k1 = Some i \<Longrightarrow> index_of db k2 = Some i \<Longrightarrow> k1 = k2"
    and surj: "\<And>i. 0 \<le> i \<Longrightarrow> i < next_index db \<Longrightarrow> \<exists>k. index_of db k = Some i"
    unfolding store_inv_def by blast+
  have 1: "0 \<le> next_index db'" using n0 nx by simp
  have 2: "0 \<le> i \<and> i < next_index db'" if "index_of db' k = Some i" for k i
    using that bound[of k i] n0 by (cases "k = m") (auto simp add: ix nx)
  have 3: "k1 = k2" if "index_of db' k1 = Some i" "index_of db' k2 = Some i" for k1 k2 i
    using that bound[of k1 i] bound[of k2 i] inj[of k1 i k2]
    by (cases "k1 = m"; cases "k2 = m") (auto simp add: ix)
  have 4: "\<exists>k. index_of db' k = Some i" if "0 \<le> i" "i < next_index db'" for i
  proof (cases "i = next_index db")
    case True
    then show ?thesis by (auto simp add: ix)
  next
    case False
    with that nx have "i < next_index db" by simp
    from surj[OF that(1) this] obtain k where k: "index_of db k = Some i" by blast
    with none have "k \<noteq> m" by auto
    with k show ?thesis by (auto simp add: ix)
  qed
  show ?thesis unfolding store_inv_def using 1 2 3 4 by blast
qed

lemma exec_inv: assumes "store_inv db" and "exec db c = (r, db')" shows "store_inv db'"
proof -
  from exec_effect[OF assms(2)] show ?thesis
  proof
    assume "index_of db' = index_of db \<and> next_index db' = next_index db"
    with assms(1) show ?thesis by (simp add: store_inv_def)
  next
    assume "\<exists>m. index_of db m = None \<and> index_of db' = (index_of db)(m \<mapsto> next_index db) \<and>
              next_index db' = next_index db + 1"
    with store_inv_extend[OF assms(1)] show ?thesis by blast
  qed
qed

lemma exec_stable:
  assumes "exec db c = (r, db')" and "index_of db k = Some j"
  shows "index_of db' k = Some j"
  using exec_effect[OF assms(1)] assms(2) by auto

lemma run_inv: "store_inv db \<Longrightarrow> run db cs = (tr, db') \<Longrightarrow> store_inv db'"
proof (induction cs arbitrary: db tr db')
  case Nil
  then show ?case by simp
next
  case (Cons c cs)
  obtain r db1 where e: "exec db c = (r, db1)" by (cases "exec db c")
  obtain tr1 db2 where r: "run db1 cs = (tr1, db2)" by (cases "run db1 cs")
  from Cons.prems(2) e r have "db' = db2" by simp
  with Cons.IH[OF exec_inv[OF Cons.prems(1) e] r] show ?case by simp
qed

lemma run_stable: "run db cs = (tr, db') \<Longrightarrow> index_of db k = Some j \<Longrightarrow> index_of db' k = Some j"
proof (induction cs arbitrary: db tr db')
  case Nil
  then show ?case by simp
next
  case (Cons c cs)
  obtain r db1 where e: "exec db c = (r, db1)" by (cases "exec db c")
  obtain tr1 db2 where r: "run db1 cs = (tr1, db2)" by (cases "run db1 cs")
  from Cons.prems(1) e r have "db' = db2" by simp
  with Cons.IH[OF r exec_stable[OF e Cons.prems(2)]] show ?case by simp
qed

lemma getMerchantIndex_index_of:
  "getMerchantIndex db m = Inr (i, db') \<Longrightarrow> index_of db' m = Some i"
  using getMerchantIndex_row[of db m i db'] by (auto simp add: index_of_def)

lemma run_trace_index:
  "run db cs = (tr, db') \<Longrightarrow> (GetMerchantIndex m, r) \<in> set tr \<Longrightarrow>
     \<exists>i. r = Inr i \<and> index_of db' m = Some i"
proof (induction cs arbitrary: db tr db')
  case Nil
  then show ?case by simp
next
  case (Cons c cs)
  obtain r1 db1 where e: "exec db c = (r1, db1)" by (cases "exec db c")
  obtain tr1 db2 where rn: "run db1 cs = (tr1, db2)" by (cases "run db1 cs")
  from Cons.prems(1) e rn have eq: "tr = (c, r1) # tr1" "db' = db2" by auto
  from Cons.prems(2) eq consider "c = GetMerchantIndex m" "r = r1" | "(GetMerchantIndex m, r) \<in> set tr1"
    by auto
  then show ?case
  proof cases
    case 1
    obtain i dbx where g: "getMerchantIndex db m = Inr (i, dbx)"
      using getMerchantIndex_total by blast
    with e 1 have "r1 = Inr i" "db1 = dbx" by auto
    with getMerchantIndex_index_of[OF g] have "index_of db1 m = Some i" by simp
    from run_stable[OF rn this] 1 \<open>r1 = Inr i\<close> eq show ?thesis by simp
  next
    case 2
    from Cons.IH[OF rn 2] eq show ?thesis by simp
  qed
qed

lemma exec_counter:
  assumes "exec db c = (r, db')"
  shows "counter_of db' m = counter_of db m + (if c = GetNextPaymentIndex m then 1 else 0)"
    and "c = GetNextPaymentIndex m \<Longrightarrow> r = Inr (counter_of db m)"
proof -
  have gm: "counter_of db1 = counter_of db" if "getMerchantIndex db k = Inr (i, db1)" for k i db1
  proof (cases "index_of db k")
    case None
    from getMerchantIndex_new(4)[OF None that] show ?thesis .
  next
    case (Some j)
    from getMerchantIndex_known[OF Some] that show ?thesis by simp
  qed
  have both: "counter_of db' m = counter_of db m + (if c = GetNextPaymentIndex m then 1 else 0) \<and>
     (c = GetNextPaymentIndex m \<longrightarrow> r = Inr (counter_of db m))"
  proof (cases c)
    case (GetMerchantIndex k)
    obtain i db1 where g: "getMerchantIndex db k = Inr (i, db1)"
      using getMerchantIndex_total by blast
    with assms GetMerchantIndex have "db' = db1" by simp
    with gm[OF g] GetMerchantIndex show ?thesis by simp
  next
    case (GetNextPaymentIndex k)
    obtain i db1 where g: "getMerchantIndex db k = Inr (i, db1)"
      using getMerchantIndex_total by blast
    from assms GetNextPaymentIndex have "getNextPaymentIndex db k = (r, db')" by simp
    from getNextPaymentIndex_split(1,4)[OF g this] gm[OF g] GetNextPaymentIndex
    show ?thesis by auto
  qed
  from both show "counter_of db' m = counter_of db m + (if c = GetNextPaymentIndex m then 1 else 0)"
    by blast
  from both show "c = GetNextPaymentIndex m \<Longrightarrow> r = Inr (counter_of db m)" by blast
qed

lemma run_payment_results:
  "run db cs = (tr, db') \<Longrightarrow>
   payment_results m tr =
     map (\<lambda>k. Inr (counter_of db m + int k))
       [0..<length (filter (\<lambda>c. c = GetNextPaymentIndex m) cs)]"
proof (induction cs arbitrary: db tr db')
  case Nil
  then show ?case by (simp add: payment_results_def)
next
  case (Cons c cs)
  obtain r1 db1 where e: "exec db c = (r1, db1)" by (cases "exec db c")
  obtain tr1 db2 where rn: "run db1 cs = (tr1, db2)" by (cases "run db1 cs")
  from Cons.prems e rn have eq: "tr = (c, r1) # tr1" by auto
  note ih = Cons.IH[OF rn]
  show ?case
  proof (cases "c = GetNextPaymentIndex m")
    case True
    from exec_counter[OF e, of m] True have r1: "r1 = Inr (counter_of db m)"
      and c1: "counter_of db1 m = counter_of db m + 1" by simp_all
    have "payment_results m tr = r1 # payment_results m tr1"
      using True by (simp add: eq payment_results_def)
    also have "\<dots> = Inr (counter_of db m) #
        map (\<lambda>k. Inr (counter_of db m + 1 + int k)) [0..<length (filter (\<lambda>c. c = GetNextPaymentIndex m) cs)]"
      by (simp add: ih r1 c1)
    also have "\<dots> = map (\<lambda>k. Inr (counter_of db m + int k))
       [0..<length (filter (\<lambda>c. c = GetNextPaymentIndex m) (c # cs))]"
      using True by (simp add: map_upt_Suc del: upt_Suc)
    finally show ?thesis .
  next
    case False
    from exec_counter(1)[OF e, of m] False have c1: "counter_of db1 m = counter_of db m" by simp
    have "payment_results m tr = payment_results m tr1"
      using False by (simp add: eq payment_results_def)
    with ih c1 False show ?thesis by simp
  qed
qed

subsection \<open>Hexadecimal strings and split\<close>

lemma hex_val_hex_digit: "n < 16 \<Longrightarrow> hex_val (hex_digit n) = Some n"
  by (auto simp add: hex_val_def hex_digit_def Let_def of_char_of)

lemma hex_digit_not_colon: "n < 16 \<Longrightarrow> hex_digit n \<noteq> CHR '':''"
  using hex_val_hex_digit[of n] by (auto simp add: hex_val_def Let_def)

lemma byte_div16: "(of_char (w :: char) :: nat) div 16 < 16"
proof -
  have "(of_char w :: nat) mod 256 = of_char w" by simp
  then have "(of_char w :: nat) < 256"
    by (metis mod_less_divisor zero_less_numeral)
  then show ?thesis by arith
qed

lemma byte_split: "char_of (16 * ((of_char w :: nat) div 16) + (of_char w :: nat) mod 16) = w"
  by simp

lemma Buffer_toString_hex_Cons:
  "Buffer_toString_hex (w # b) =
      hex_digit (of_char w div 16) # hex_digit (of_char w mod 16) # Buffer_toString_hex b"
  by (simp add: Buffer_toString_hex_def)

lemma Buffer_from_hex_toString: "Buffer_from_hex (Buffer_toString_hex b) = b"
proof (induction b)
  case Nil
  show ?case by (simp add: Buffer_toString_hex_def)
next
  case (Cons w b)
  show ?case
    by (simp add: Buffer_toString_hex_Cons hex_val_hex_digit byte_div16 Cons.IH)
qed

lemma Buffer_toString_hex_no_colon: "CHR '':'' \<notin> set (Buffer_toString_hex b)"
proof (induction b)
  case Nil
  show ?case by (simp add: Buffer_toString_hex_def)
next
  case (Cons w b)
  show ?case
    using Cons.IH hex_digit_not_colon[of "of_char w div 16"] hex_digit_not_colon[of "of_char w mod 16"]
    by (auto simp add: Buffer_toString_hex_Cons byte_div16)
qed

lemma split_nonempty: "split c s \<noteq> []"
  by (induction s) (auto split: list.splits)

lemma split_no_sep: "c \<notin> set s \<Longrightarrow> split c s = [s]"
  by (induction s) (auto split: list.splits)

lemma split_append: "c \<notin> set a \<Longrightarrow> split c (a @ c # rest) = a # split c rest"
  by (induction a) (auto split: list.splits)

lemma split_three:
  assumes "c \<notin> set x" "c \<notin> set y" "c \<notin> set z"
  shows "split c (x @ [c] @ y @ [c] @ z) = [x, y, z]"
  using assms by (simp add: split_append split_no_sep)

subsection \<open>Decimal numbers and the path of two indices\<close>

lemma is_digit_digit_char: "d < 10 \<Longrightarrow> is_digit (digit_char d)"
  by (simp add: is_digit_def digit_char_def of_char_of)

lemma digit_char_value: "d < 10 \<Longrightarrow> of_char (digit_char d) - 48 = d"
  by (simp add: digit_char_def of_char_of)

lemma decimal_digits: "list_all is_digit (decimal n)"
proof (induction n rule: decimal.induct)
  case (1 n)
  show ?case
  proof (cases "n < 10")
    case True
    then show ?thesis by (subst decimal.simps) (simp add: is_digit_digit_char)
  next
    case False
    with 1 show ?thesis by (subst decimal.simps) (simp add: is_digit_digit_char)
  qed
qed

lemma decimal_nonempty: "decimal n \<noteq> []"
  by (subst decimal.simps) simp

lemma parseInt_digits_snoc:
  "parseInt_digits (s @ [c]) = 10 * parseInt_digits s + (of_char c - 48)"
  by (simp add: parseInt_digits_def)

lemma parseInt_decimal: "parseInt_digits (decimal n) = n"
proof (induction n rule: decimal.induct)
  case (1 n)
  show ?case
  proof (cases "n < 10")
    case True
    then show ?thesis
      by (subst decimal.simps) (simp add: parseInt_digits_def digit_char_value)
  next
    case False
    with 1 have ih: "parseInt_digits (decimal (n div 10)) = n div 10" by simp
    from False show ?thesis
      by (subst decimal.simps) (simp add: parseInt_digits_snoc ih digit_char_value)
  qed
qed

lemma is_digit_not_quote: "is_digit c \<Longrightarrow> c \<noteq> CHR 0x27"
  by (auto simp add: is_digit_def)

lemma is_digit_not_slash: "is_digit c \<Longrightarrow> c \<noteq> CHR ''/''"
  by (auto simp add: is_digit_def)

lemma is_digit_not_minus: "is_digit c \<Longrightarrow> c \<noteq> CHR ''-''"
  by (auto simp add: is_digit_def)









lemma CKDPriv_result:
  "CKDPriv R keys (n + HARDENED_OFFSET) =
     (if n < 2147483648
      then Inr (take 32 (hmac_sha512 R (snd keys)
                  ([CHR 0x00] @ fst keys @ [char_of ((n + HARDENED_OFFSET) div 16777216),
                     char_of ((n + HARDENED_OFFSET) div 65536),
                     char_of ((n + HARDENED_OFFSET) div 256), char_of (n + HARDENED_OFFSET)])),
                drop 32 (hmac_sha512 R (snd keys)
                  ([CHR 0x00] @ fst keys @ [char_of ((n + HARDENED_OFFSET) div 16777216),
                     char_of ((n + HARDENED_OFFSET) div 65536),
                     char_of ((n + HARDENED_OFFSET) div 256), char_of (n + HARDENED_OFFSET)])))
      else Inl ERR_OUT_OF_RANGE)"
  by (cases keys) (simp add: CKDPriv_def writeUInt32BE_def HARDENED_OFFSET_def Let_def)

lemma CKDPriv_ok: "n < 2147483648 \<Longrightarrow> \<exists>keys'. CKDPriv R keys (n + HARDENED_OFFSET) = Inr keys'"
  by (simp add: CKDPriv_result)

lemma CKDPriv_fail: "\<not> n < 2147483648 \<Longrightarrow> CKDPriv R keys (n + HARDENED_OFFSET) = Inl ERR_OUT_OF_RANGE"
  by (simp add: CKDPriv_result)

lemma derive_segments_ok:
  "list_all (\<lambda>n. n < 2147483648) segs \<Longrightarrow> \<exists>keys'. derive_segments R keys segs = Inr keys'"
proof (induction segs arbitrary: keys)
  case Nil
  then show ?case by simp
next
  case (Cons n segs)
  then obtain k1 where "CKDPriv R keys (n + HARDENED_OFFSET) = Inr k1"
    using CKDPriv_ok[of n R keys] by auto
  with Cons show ?case by simp
qed

lemma derive_segments_fail:
  "\<not> list_all (\<lambda>n. n < 2147483648) segs \<Longrightarrow> derive_segments R keys segs = Inl ERR_OUT_OF_RANGE"
proof (induction segs arbitrary: keys)
  case Nil
  then show ?case by simp
next
  case (Cons n segs)
  show ?case
  proof (cases "n < 2147483648")
    case True
    then obtain k1 where k: "CKDPriv R keys (n + HARDENED_OFFSET) = Inr k1"
      using CKDPriv_ok[of n R keys] by auto
    from True Cons.prems have "\<not> list_all (\<lambda>n. n < 2147483648) segs" by simp
    from Cons.IH[OF this] k show ?thesis by simp
  next
    case False
    then show ?thesis by (simp add: CKDPriv_fail)
  qed
qed


subsection \<open>The cached seed\<close>

lemma getMasterSeed_again:
  assumes "getMasterSeed svc = Inr (s, svc')"
  shows "getMasterSeed svc' = Inr (s, svc')"
proof (cases "\<exists>s0. masterSeed svc = Some s0 \<and> s0 \<noteq> []")
  case True
  with assms have "svc' = svc" by (auto simp add: getMasterSeed_def)
  with assms show ?thesis by simp
next
  case False
  then have g: "getMasterSeed svc =
      (case kmsProvider_getMasterSeed svc of Inl e \<Rightarrow> Inl e
       | Inr s' \<Rightarrow> Inr (s', svc\<lparr>masterSeed := Some s'\<rparr>))"
    by (auto simp add: getMasterSeed_def split: option.splits)
  with assms have k: "kmsProvider_getMasterSeed svc = Inr s"
    and svc': "svc' = svc\<lparr>masterSeed := Some s\<rparr>"
    by (auto split: sum.splits)
  have k': "kmsProvider_getMasterSeed svc' = Inr s"
    using k by (cases "kmsProvider svc") (auto simp add: kmsProvider_getMasterSeed_def svc')
  show ?thesis
  proof (cases "s = []")
    case True
    from k' have "kmsProvider_getMasterSeed (svc\<lparr>masterSeed := Some []\<rparr>) = Inr []"
      by (simp add: svc' True)
    then show ?thesis by (simp add: getMasterSeed_def svc' True)
  next
    case False
    then show ?thesis by (simp add: getMasterSeed_def svc')
  qed
qed

lemma getSeedBuffer_again:
  assumes "getSeedBuffer R svc = Inr (b, svc')"
  shows "getSeedBuffer R svc' = Inr (b, svc')"
proof -
  from assms obtain s where g: "getMasterSeed svc = Inr (s, svc')"
    by (auto simp add: getSeedBuffer_def Let_def split: sum.splits if_splits)
  from getMasterSeed_again[OF g] g assms show ?thesis
    by (simp add: getSeedBuffer_def)
qed

lemma deriveKeypairFromPath_Inr:
  assumes "deriveKeypairFromPath R svc m p = (Inr kp, svc')"
  shows "\<exists>sb key cc. getSeedBuffer R svc = Inr (sb, svc') \<and>
           derivePath R (path_of m p) (Buffer_toString_hex sb) = Inr (key, cc) \<and>
           Keypair_fromRawEd25519Seed R key = Inr (kp_publicKey kp, kp_secretKey kp) \<and>
           kp_derivationPath kp = path_of m p"
  using assms by (auto simp add: deriveKeypairFromPath_def Let_def split: sum.splits prod.splits)

lemma derivePaymentAddress_Inr:
  assumes "derivePaymentAddress R svc db merchantId paymentId = (Inr addr, svc', db')"
  shows "\<exists>kp. deriveKeypairFromPath R svc (merchantIndex addr) (paymentIndex addr) = (Inr kp, svc') \<and>
           publicKey addr = kp_publicKey kp \<and> derivationPath addr = kp_derivationPath kp"
  using assms
  by (auto simp add: derivePaymentAddress_def split: sum.splits prod.splits)

subsection \<open>Decoding hexadecimal strings\<close>

lemma hex_val_cases:
  assumes "hex_val c = Some h" and "n = (of_char c :: nat)"
  shows "(48 \<le> n \<and> n \<le> 57 \<and> h = n - 48) \<or> (97 \<le> n \<and> n \<le> 102 \<and> h = n - 87) \<or>
    (65 \<le> n \<and> n \<le> 70 \<and> h = n - 55)"
  using assms unfolding hex_val_def Let_def by (simp split: if_splits)

lemma hex_digit_hex_val:
  assumes "hex_val c = Some h"
  shows "hex_digit h = lower_hex c" and "h < 16"
proof -
  define n where "n = (of_char c :: nat)"
  have c: "char_of n = c" by (simp add: n_def)
  from hex_val_cases[OF assms n_def] consider "48 \<le> n" "n \<le> 57" "h = n - 48"
    | "97 \<le> n" "n \<le> 102" "h = n - 87"
    | "65 \<le> n" "n \<le> 70" "h = n - 55"
    by blast
  then have "hex_digit h = char_of (if 65 \<le> n \<and> n \<le> 70 then n + 32 else n) \<and> h < 16"
  proof cases
    case 1
    then have "h < 10" "48 + h = n" "\<not> (65 \<le> n \<and> n \<le> 70)" by arith+
    then show ?thesis by (simp add: hex_digit_def)
  next
    case 2
    then have "\<not> h < 10" "87 + h = n" "\<not> (65 \<le> n \<and> n \<le> 70)" "h < 16" by arith+
    then show ?thesis by (simp add: hex_digit_def)
  next
    case 3
    then have "\<not> h < 10" "87 + h = n + 32" "65 \<le> n \<and> n \<le> 70" "h < 16" by arith+
    then show ?thesis by (simp add: hex_digit_def)
  qed
  moreover have "lower_hex c = (if 65 \<le> n \<and> n \<le> 70 then char_of (n + 32) else char_of n)"
    by (simp only: lower_hex_def n_def[symmetric] c)
  ultimately show "hex_digit h = lower_hex c" and "h < 16" by (simp_all split: if_splits)
qed

lemma Buffer_from_hex_valid:
  "list_all is_hex_char s \<Longrightarrow> even (length s) \<Longrightarrow>
     length (Buffer_from_hex s) = length s div 2 \<and>
     Buffer_toString_hex (Buffer_from_hex s) = map lower_hex s"
proof (induction s rule: induct_list012)
  case 1
  show ?case by (simp add: Buffer_toString_hex_def)
next
  case (2 c)
  from 2(2) have False by simp
  then show ?case ..
next
  case (3 c1 c2 cs)
  from "3.prems" obtain h l where h: "hex_val c1 = Some h" and l: "hex_val c2 = Some l"
    by (auto simp add: is_hex_char_def)
  from "3.prems" have rest: "list_all is_hex_char cs" "even (length cs)" by simp_all
  from "3.IH"(1)[OF rest]
  have ih: "length (Buffer_from_hex cs) = length cs div 2"
    "Buffer_toString_hex (Buffer_from_hex cs) = map lower_hex cs" by simp_all
  from hex_digit_hex_val[OF h] hex_digit_hex_val[OF l]
  have d: "hex_digit h = lower_hex c1" "hex_digit l = lower_hex c2" "h < 16" "l < 16" by simp_all
  then have lt: "16 * h + l < 256" by simp
  define w :: char where "w = char_of (16 * h + l)"
  have u: "(of_char w :: nat) = 16 * h + l" using lt by (simp add: w_def of_char_of)
  have dv: "(of_char w :: nat) div 16 = h" "(of_char w :: nat) mod 16 = l"
    using d(3,4) by (simp_all add: u)
  have bf: "Buffer_from_hex (c1 # c2 # cs) = w # Buffer_from_hex cs"
    by (simp add: h l w_def)
  have "length (Buffer_from_hex (c1 # c2 # cs)) = length (c1 # c2 # cs) div 2"
    by (simp only: bf) (simp add: ih(1))
  moreover have "Buffer_toString_hex (Buffer_from_hex (c1 # c2 # cs)) = map lower_hex (c1 # c2 # cs)"
    by (simp only: bf Buffer_toString_hex_Cons dv d(1,2) ih(2) list.map)
  ultimately show ?case by blast
qed

lemma match_exactly_iff: "match_exactly P n s \<longleftrightarrow> length s = n \<and> list_all P s"
proof (induction s arbitrary: n)
  case Nil
  show ?case by auto
next
  case (Cons c cs)
  show ?case by (cases n) (auto simp add: Cons.IH)
qed

subsection \<open>The paths that derivePath accepts\<close>

lemma split_unsplit:
  "\<exists>p ps. split c s = p # ps \<and> s = p @ concat (map (\<lambda>x. c # x) ps)"
proof (induction s)
  case Nil
  show ?case by simp
next
  case (Cons a s)
  then obtain p ps where ih: "split c s = p # ps" "s = p @ concat (map (\<lambda>x. c # x) ps)" by blast
  show ?case
  proof (cases "a = c")
    case True
    have "split c (a # s) = [] # p # ps" using True ih(1) by simp
    moreover have "a # s = [] @ concat (map (\<lambda>x. c # x) (p # ps))" using True ih(2) by simp
    ultimately show ?thesis by blast
  next
    case False
    have "split c (a # s) = (a # p) # ps" using False ih(1) by simp
    moreover have "a # s = (a # p) @ concat (map (\<lambda>x. c # x) ps)" using ih(2) by simp
    ultimately show ?thesis by blast
  qed
qed

lemma split_segments:
  "c \<notin> set p \<Longrightarrow> list_all (\<lambda>x. c \<notin> set x) ps \<Longrightarrow>
     split c (p @ concat (map (\<lambda>x. c # x) ps)) = p # ps"
proof (induction ps arbitrary: p)
  case Nil
  then show ?case by (simp add: split_no_sep)
next
  case (Cons x ps)
  from Cons.prems have x: "c \<notin> set x" and ps: "list_all (\<lambda>x. c \<notin> set x) ps" by simp_all
  have "split c (p @ concat (map (\<lambda>x. c # x) (x # ps))) =
        split c (p @ c # (x @ concat (map (\<lambda>x. c # x) ps)))" by simp
  also have "\<dots> = p # split c (x @ concat (map (\<lambda>x. c # x) ps))"
    using Cons.prems(1) by (rule split_append)
  also have "\<dots> = p # x # ps" using Cons.IH[OF x ps] by simp
  finally show ?case .
qed

lemma hardened_segment_iff:
  "hardened_segment seg \<longleftrightarrow> (\<exists>d. digit_string d \<and> seg = d @ [CHR 0x27])"
proof
  assume h: "hardened_segment seg"
  then have "seg = butlast seg @ [CHR 0x27]"
    unfolding hardened_segment_def using append_butlast_last_id[of seg] by auto
  with h show "\<exists>d. digit_string d \<and> seg = d @ [CHR 0x27]"
    unfolding hardened_segment_def digit_string_def by blast
next
  assume "\<exists>d. digit_string d \<and> seg = d @ [CHR 0x27]"
  then show "hardened_segment seg"
    by (auto simp add: hardened_segment_def digit_string_def)
qed

lemma digit_string_no_slash: "digit_string d \<Longrightarrow> CHR ''/'' \<notin> set d"
  using is_digit_not_slash by (auto simp add: digit_string_def list_all_iff)

lemma digit_string_no_quote: "digit_string d \<Longrightarrow> CHR 0x27 \<notin> set d"
  using is_digit_not_quote by (auto simp add: digit_string_def list_all_iff)

lemma hardened_path_alt:
  "hardened_path ds = ''m'' @ concat (map (\<lambda>x. CHR ''/'' # x) (map (\<lambda>d. d @ [CHR 0x27]) ds))"
  by (simp add: hardened_path_def comp_def)

lemma split_hardened_path:
  assumes "list_all digit_string ds"
  shows "split CHR ''/'' (hardened_path ds) = ''m'' # map (\<lambda>d. d @ [CHR 0x27]) ds"
proof -
  have "list_all (\<lambda>x. CHR ''/'' \<notin> set x) (map (\<lambda>d. d @ [CHR 0x27]) ds)"
    using assms digit_string_no_slash by (auto simp add: list_all_iff)
  then show ?thesis
    unfolding hardened_path_alt by (intro split_segments) simp_all
qed

lemma pathRegex_test_iff: "pathRegex_test path \<longleftrightarrow> path \<in> accepted_paths"
proof
  assume v: "pathRegex_test path"
  from split_unsplit[of "CHR ''/''" path] obtain p ps where
    sp: "split CHR ''/'' path = p # ps" and path: "path = p @ concat (map (\<lambda>x. CHR ''/'' # x) ps)"
    by blast
  from v sp have p: "p = ''m''" and ne: "ps \<noteq> []" and hs: "list_all hardened_segment ps"
    by (simp_all add: pathRegex_test_def)
  define ds where "ds = map butlast ps"
  have each: "digit_string (butlast s) \<and> s = butlast s @ [CHR 0x27]" if "s \<in> set ps" for s
  proof -
    from hs that have "hardened_segment s" by (simp add: list_all_iff)
    then obtain d where "digit_string d" "s = d @ [CHR 0x27]"
      using hardened_segment_iff by blast
    then show ?thesis by simp
  qed
  have ps: "ps = map (\<lambda>d. d @ [CHR 0x27]) ds"
    unfolding ds_def using each by (simp add: map_idI)
  have "list_all digit_string ds" unfolding ds_def using each by (simp add: list_all_iff)
  moreover have "ds \<noteq> []" using ne by (simp add: ds_def)
  moreover have "path = hardened_path ds"
    unfolding hardened_path_alt using path p ps by simp
  ultimately show "path \<in> accepted_paths" unfolding accepted_paths_def by blast
next
  assume "path \<in> accepted_paths"
  then obtain ds where ds: "ds \<noteq> []" "list_all digit_string ds" "path = hardened_path ds"
    unfolding accepted_paths_def by blast
  have "list_all hardened_segment (map (\<lambda>d. d @ [CHR 0x27]) ds)"
    using ds(2) hardened_segment_iff by (auto simp add: list_all_iff)
  with ds show "pathRegex_test path"
    by (simp add: pathRegex_test_def split_hardened_path)
qed

lemma segments_hardened_path:
  assumes "list_all digit_string ds"
  shows "map (\<lambda>el. parseInt_digits (replaceDerive el)) (tl (split CHR ''/'' (hardened_path ds)))
           = map parseInt_digits ds"
proof -
  have "replaceDerive (d @ [CHR 0x27]) = d" if "d \<in> set ds" for d
  proof -
    from that assms have "digit_string d" by (simp add: list_all_iff)
    from digit_string_no_quote[OF this] show ?thesis
      by (simp add: replaceDerive_def remove1_append)
  qed
  then show ?thesis by (simp add: split_hardened_path[OF assms])
qed

lemma derivePath_hardened_path:
  assumes "ds \<noteq> []" "list_all digit_string ds"
  shows "derivePath R (hardened_path ds) seed =
           derive_segments R (getMasterKeyFromSeed R seed) (map parseInt_digits ds)"
proof -
  from assms have "hardened_path ds \<in> accepted_paths" unfolding accepted_paths_def by blast
  then have "pathRegex_test (hardened_path ds)" by (simp add: pathRegex_test_iff)
  then show ?thesis
    by (simp add: derivePath_def Let_def segments_hardened_path[OF assms(2)])
qed

subsection \<open>Derivation with an index outside the range\<close>


subsection \<open>The local cipher\<close>

lemma is_hex_char_not_colon: "is_hex_char c \<Longrightarrow> c \<noteq> CHR '':''"
  by (auto simp add: is_hex_char_def hex_val_def Let_def)

lemma is_hex_char_not_bar: "is_hex_char c \<Longrightarrow> c \<noteq> CHR ''|''"
  by (auto simp add: is_hex_char_def hex_val_def Let_def)

lemma is_hex_char_hex_digit: "n < 16 \<Longrightarrow> is_hex_char (hex_digit n)"
  by (simp add: is_hex_char_def hex_val_hex_digit)

lemma Buffer_toString_hex_chars: "list_all is_hex_char (Buffer_toString_hex b)"
proof (induction b)
  case Nil
  show ?case by (simp add: Buffer_toString_hex_def)
next
  case (Cons w b)
  show ?case
    using Cons.IH by (simp add: Buffer_toString_hex_Cons is_hex_char_hex_digit byte_div16)
qed

lemma hex_no_colon: "list_all is_hex_char s \<Longrightarrow> CHR '':'' \<notin> set s"
  using is_hex_char_not_colon by (auto simp add: list_all_iff)

lemma hex_no_bar: "list_all is_hex_char s \<Longrightarrow> CHR ''|'' \<notin> set s"
  using is_hex_char_not_bar by (auto simp add: list_all_iff)

lemma localEncrypt_blob:
  assumes "aes_256_gcm_encrypt R (local_key R svc) iv plaintext = Inr (enc, tag)"
  shows "localEncrypt R svc iv plaintext =
           Inr (Buffer_toString_hex iv @ '':'' @ Buffer_toString_hex tag @ '':'' @ enc)"
  using assms by (simp add: localEncrypt_def Let_def)

lemma split_blob:
  assumes "CHR '':'' \<notin> set enc"
  shows "split CHR '':'' (Buffer_toString_hex iv @ '':'' @ Buffer_toString_hex tag @ '':'' @ enc) =
     [Buffer_toString_hex iv, Buffer_toString_hex tag, enc]"
  using split_three[of "CHR '':''" "Buffer_toString_hex iv" "Buffer_toString_hex tag" enc] assms
  by (simp add: Buffer_toString_hex_no_colon)

lemma localDecrypt_blob:
  assumes "CHR '':'' \<notin> set enc"
  shows "localDecrypt R svc (Buffer_toString_hex iv @ '':'' @ Buffer_toString_hex tag @ '':'' @ enc) =
     aes_256_gcm_decrypt R (local_key R svc) iv tag enc"
  unfolding localDecrypt_def Let_def split_blob[OF assms]
  by (simp add: Buffer_from_hex_toString)

lemma local_roundtrip:
  assumes "gcm_roundtrip R" "sha256_length R" "length iv = 16" "gcm_hex_output R"
  shows "\<exists>blob. localEncrypt R svc iv plaintext = Inr blob \<and> localDecrypt R svc blob = Inr plaintext"
proof -
  have k: "length (local_key R svc) = 32" using assms(2) by (simp add: local_key_def sha256_length_def)
  from assms(1) k assms(3) obtain enc tag where
    e: "aes_256_gcm_encrypt R (local_key R svc) iv plaintext = Inr (enc, tag)"
    and d: "aes_256_gcm_decrypt R (local_key R svc) iv tag enc = Inr plaintext"
    unfolding gcm_roundtrip_def by blast
  from assms(4) e have h: "list_all is_hex_char enc" unfolding gcm_hex_output_def by blast
  from localEncrypt_blob[OF e] localDecrypt_blob[OF hex_no_colon[OF h], of R svc iv tag] d
  show ?thesis by simp
qed

lemma Buffer_toString_hex_no_bar: "CHR ''|'' \<notin> set (Buffer_toString_hex b)"
  by (rule hex_no_bar) (rule Buffer_toString_hex_chars)

lemma split_four:
  assumes "c \<notin> set w" "c \<notin> set x" "c \<notin> set y" "c \<notin> set z"
  shows "split c (w @ [c] @ x @ [c] @ y @ [c] @ z) = [w, x, y, z]"
  using assms by (simp add: split_append split_no_sep)

lemma AWSKMSProvider_roundtrip:
  assumes "gcm_roundtrip R" and "base64_roundtrip R" and "kms_client_contract client"
    and "gcm_hex_output R"
  shows "provider_roundtrip (AWSKMSProvider R client seed)"
proof -
  from assms(3) obtain plainDataKey ciphertextBlob where
    g: "GenerateDataKey client = Inr (plainDataKey, ciphertextBlob)"
    and l: "length plainDataKey = 32"
    and d: "Decrypt client ciphertextBlob = Inr plainDataKey"
    unfolding kms_client_contract_def by blast
  let ?k = "Buffer_toString_base64 R ciphertextBlob"
  from assms(2) have b: "Buffer_from_base64 R ?k = ciphertextBlob" "CHR ''|'' \<notin> set ?k"
    unfolding base64_roundtrip_def by simp_all
  have "\<exists>c. AWSKMSProvider_encrypt R client random data = Inr c \<and>
            AWSKMSProvider_decrypt R client c = Inr data"
    if r: "length random = 16" for random data
  proof -
    from assms(1) l r obtain enc tag where
      e: "aes_256_gcm_encrypt R plainDataKey random data = Inr (enc, tag)"
      and dec: "aes_256_gcm_decrypt R plainDataKey random tag enc = Inr data"
      unfolding gcm_roundtrip_def by blast
    from assms(4) e have h: "list_all is_hex_char enc" unfolding gcm_hex_output_def by blast
    let ?c = "?k @ ''|'' @ Buffer_toString_hex random @ ''|'' @ Buffer_toString_hex tag @ ''|'' @ enc"
    have enc: "AWSKMSProvider_encrypt R client random data = Inr ?c"
      by (simp add: AWSKMSProvider_encrypt_def g e Let_def)
    have sp: "split CHR ''|'' ?c = [?k, Buffer_toString_hex random, Buffer_toString_hex tag, enc]"
      using split_four[of "CHR ''|''" ?k "Buffer_toString_hex random" "Buffer_toString_hex tag" enc]
        b(2) hex_no_bar[OF h]
      by (simp add: Buffer_toString_hex_no_bar)
    have "AWSKMSProvider_decrypt R client ?c = Inr data"
      unfolding AWSKMSProvider_decrypt_def sp
      by (simp add: b(1) d Buffer_from_hex_toString dec)
    with enc show ?thesis by blast
  qed
  then show ?thesis
    by (simp add: provider_roundtrip_def AWSKMSProvider_def)
qed

lemma decryptKeyData_local:
  "decrypts_locally svc \<Longrightarrow>
   decryptKeyData R svc blob =
     (case localDecrypt R svc blob of Inl e \<Rightarrow> Inl e | Inr payload \<Rightarrow> JSON_parse R payload)"
  by (cases "kmsProvider svc")
     (simp_all add: decrypts_locally_def decryptKeyData_def kmsProvider_decrypt_def)

lemma encryptKeyData_local:
  "encrypts_locally svc \<Longrightarrow>
   encryptKeyData R svc random m p = localEncrypt R svc random (JSON_stringify_indices m p)"
  by (cases "kmsProvider svc")
     (simp_all add: encrypts_locally_def encryptKeyData_def kmsProvider_encrypt_def Let_def)

subsection \<open>The small instance keeps the contracts\<close>

lemma example_sha256_length: "sha256_length example_runtime"
  by (auto simp add: sha256_length_def example_runtime_def example_sha256_def min_def)

lemma example_sha512_length: "sha512_length example_runtime"
  by (auto simp add: sha512_length_def example_runtime_def example_sha512_def min_def)

lemma example_gcm_roundtrip: "gcm_roundtrip example_runtime"
  by (simp add: gcm_roundtrip_def example_runtime_def example_gcm_encrypt_def
      example_gcm_decrypt_def Let_def Buffer_from_hex_toString)

lemma example_gcm_hex_output: "gcm_hex_output example_runtime"
  by (auto simp add: gcm_hex_output_def example_runtime_def example_gcm_encrypt_def
      Let_def Buffer_toString_hex_chars)

lemma example_base64_roundtrip: "base64_roundtrip example_runtime"
  by (simp add: base64_roundtrip_def example_runtime_def Buffer_from_hex_toString
      Buffer_toString_hex_no_bar)

lemma example_kms_client_contract: "kms_client_contract example_kms_client"
  by (simp add: kms_client_contract_def example_kms_client_def)

lemma strip_prefix_append: "strip_prefix pre (pre @ rest) = Some rest"
  by (induction pre) simp_all

lemma read_nat_decimal:
  assumes "rest = [] \<or> \<not> is_digit (hd rest)"
  shows "read_nat (decimal n @ rest) = Some (n, rest)"
proof -
  have all: "\<forall>c\<in>set (decimal n). is_digit c" using decimal_digits[of n] by (simp add: list_all_iff)
  have tw: "takeWhile is_digit rest = []" and dw: "dropWhile is_digit rest = rest"
    using assms by (cases rest; simp)+
  have t: "takeWhile is_digit (decimal n @ rest) = decimal n"
    using all tw by (simp add: takeWhile_append2)
  have d: "dropWhile is_digit (decimal n @ rest) = rest"
    using all dw by (simp add: dropWhile_append2)
  show ?thesis
    by (simp add: read_nat_def Let_def t d decimal_nonempty parseInt_decimal)
qed

lemma decimal_hd_digit: "is_digit (hd (decimal n))"
  using decimal_digits[of n] decimal_nonempty[of n] by (cases "decimal n") simp_all

lemma read_int_Number:
  assumes "rest = [] \<or> \<not> is_digit (hd rest)"
  shows "read_int (Number_toString i @ rest) = Some (i, rest)"
proof (cases "i < 0")
  case True
  then show ?thesis
    by (simp add: Number_toString_def read_int_def read_nat_decimal[OF assms])
next
  case False
  obtain c cs where d: "decimal (nat i) = c # cs" using decimal_nonempty[of "nat i"] by (cases "decimal (nat i)") auto
  with decimal_hd_digit[of "nat i"] have "c \<noteq> CHR ''-''" using is_digit_not_minus by auto
  moreover have "read_nat (c # cs @ rest) = Some (nat i, rest)"
    using read_nat_decimal[OF assms, of "nat i"] d by simp
  ultimately show ?thesis using False
    by (simp add: Number_toString_def read_int_def d)
qed

lemma example_JSON_parse_indices: "JSON_parse_indices example_runtime"
proof -
  have "example_JSON_parse (JSON_stringify_indices m p) = Inr (indices_object m p)" for m p
  proof -
    have s1: "strip_prefix ''{\"merchantIndex\":'' (JSON_stringify_indices m p) =
        Some (Number_toString m @ ('',\"paymentIndex\":'' @ Number_toString p @ ''}''))"
      unfolding JSON_stringify_indices_def by (rule strip_prefix_append)
    have r1: "read_int (Number_toString m @ ('',\"paymentIndex\":'' @ Number_toString p @ ''}'')) =
        Some (m, '',\"paymentIndex\":'' @ Number_toString p @ ''}'')"
      by (rule read_int_Number) (simp add: is_digit_def)
    have s2: "strip_prefix '',\"paymentIndex\":'' ('',\"paymentIndex\":'' @ Number_toString p @ ''}'')
        = Some (Number_toString p @ ''}'')"
      by (rule strip_prefix_append)
    have r2: "read_int (Number_toString p @ ''}'') = Some (p, ''}'')"
      by (rule read_int_Number) (simp add: is_digit_def)
    show ?thesis
      by (simp only: example_JSON_parse_def s1 r1 s2 r2 option.case prod.case) simp
  qed
  then show ?thesis by (simp add: JSON_parse_indices_def example_runtime_def)
qed

lemma example_gcm_rejects:
  assumes "take 15 (k @ replicate 15 (CHR 0x00)) \<noteq> take 15 (k' @ replicate 15 (CHR 0x00))"
  shows "gcm_rejects example_runtime k k'"
  using assms
  by (auto simp add: gcm_rejects_def example_runtime_def example_gcm_encrypt_def
      example_gcm_decrypt_def example_tag_def Let_def Buffer_from_hex_toString)

lemma getMasterSeed_fetch:
  assumes "masterSeed svc = None" and "kmsProvider svc = Injected prov"
    and "getMasterSeed svc = Inr (seed, svc')"
  shows "provider_getMasterSeed prov = Inr seed" and "svc' = svc\<lparr>masterSeed := Some seed\<rparr>"
  using assms
  by (auto simp add: getMasterSeed_def kmsProvider_getMasterSeed_def split: sum.splits)

subsection \<open>Facts about the example services\<close>

lemma seed_service_seed: "getMasterSeed seed_service = Inr (test_seed, seed_service)"
  by (simp add: getMasterSeed_def seed_service_def test_seed_def)

lemma seed_service_buffer:
  "getSeedBuffer example_runtime seed_service = Inr (example_sha512 test_seed, seed_service)"
proof -
  have "\<not> match_exactly is_hex_char 64 test_seed" by code_simp
  then show ?thesis
    by (simp add: getSeedBuffer_def seed_service_seed example_runtime_def)
qed

lemma hex_seed_service_seed: "getMasterSeed hex_seed_service = Inr (hex_seed, hex_seed_service)"
  by (simp add: getMasterSeed_def hex_seed_service_def hex_seed_def)

lemma provider_service_fetch:
  "getMasterSeed (provider_service seed) = Inr (seed, fetched_service seed)"
  by (simp add: getMasterSeed_def provider_service_def fetched_service_def
      kmsProvider_getMasterSeed_def bare_provider_def)

section \<open>The claims\<close>

subsection \<open>C1: the path returned by derivePaymentAddress regenerates the same public key\<close>

text \<open>
  Claim C1. Whenever \<^verbatim>\<open>derivePaymentAddress\<close> succeeds, \<^verbatim>\<open>regenerateKeypairFromPath\<close>, called on
  the service as the first call left it and on the \<^verbatim>\<open>derivationPath\<close> it returned, succeeds
  too and returns the \<^verbatim>\<open>publicKey\<close> of the returned address. This holds whatever the
  libraries compute.
\<close>

theorem regenerateKeypairFromPath_reproduces_publicKey:
  assumes "derivePaymentAddress R svc db merchantId paymentId = (Inr addr, svc', db')"
  shows "\<exists>secretKey. regenerateKeypairFromPath R svc' (derivationPath addr) =
           (Inr (publicKey addr, secretKey), svc')"
proof -
  from derivePaymentAddress_Inr[OF assms] obtain kp where
    d: "deriveKeypairFromPath R svc (merchantIndex addr) (paymentIndex addr) = (Inr kp, svc')"
    and pk: "publicKey addr = kp_publicKey kp" and dp: "derivationPath addr = kp_derivationPath kp"
    by blast
  from deriveKeypairFromPath_Inr[OF d] obtain sb key cc where
    s: "getSeedBuffer R svc = Inr (sb, svc')"
    and k: "derivePath R (path_of (merchantIndex addr) (paymentIndex addr)) (Buffer_toString_hex sb) = Inr (key, cc)"
    and kp: "Keypair_fromRawEd25519Seed R key = Inr (kp_publicKey kp, kp_secretKey kp)"
    and path: "kp_derivationPath kp = path_of (merchantIndex addr) (paymentIndex addr)"
    by blast
  from getSeedBuffer_again[OF s] k kp
  have "regenerateKeypairFromPath R svc' (derivationPath addr) =
          (Inr (publicKey addr, kp_secretKey kp), svc')"
    by (simp add: regenerateKeypairFromPath_def dp path pk)
  then show ?thesis by blast
qed

text \<open>The first payment of \<^verbatim>\<open>merchant_A\<close> on the empty store, under the seed of the test suite.\<close>

theorem regenerateKeypairFromPath_reproduces_publicKey_witness:
  "fst (derivePaymentAddress example_runtime seed_service empty_store ''merchant_A'' ''payment_1'')
     = Inr example_address \<and>
   (\<exists>secretKey.
      fst (regenerateKeypairFromPath example_runtime
             (fst (snd (derivePaymentAddress example_runtime seed_service empty_store
                          ''merchant_A'' ''payment_1'')))
             (derivationPath example_address)) = Inr (publicKey example_address, secretKey))"
proof -
  let ?d = "derivePaymentAddress example_runtime seed_service empty_store ''merchant_A'' ''payment_1''"
  have h: "fst ?d = Inr example_address" by code_simp
  then have "?d = (Inr example_address, fst (snd ?d), snd (snd ?d))"
    by (simp add: prod_eq_iff)
  from regenerateKeypairFromPath_reproduces_publicKey[OF this] h
  show ?thesis by auto
qed

subsection \<open>C2: getNextPaymentIndex returns the counter before its increment\<close>

text \<open>
  Claim C2. \<^verbatim>\<open>getNextPaymentIndex\<close> returns the value the payment counter of the merchant
  had before the call (0 when the merchant had no row yet) and leaves the counter one
  higher. Hence, in every history that starts on the empty store, the calls for one
  merchant return 0, 1, 2, ... in this order, whichever calls for this or other merchants
  lie between them; from any store they return \<open>c, c + 1, c + 2, ...\<close> where \<open>c\<close> is the
  counter at the start.
\<close>

theorem getNextPaymentIndex_preincrement_sequence:
  "fst (getNextPaymentIndex db m) = Inr (counter_of db m) \<and>
   counter_of (snd (getNextPaymentIndex db m)) m = counter_of db m + 1 \<and>
   payment_results m (fst (run empty_store calls)) =
     map (\<lambda>k. Inr (int k)) [0..<length (filter (\<lambda>c. c = GetNextPaymentIndex m) calls)] \<and>
   payment_results m (fst (run db calls)) =
     map (\<lambda>k. Inr (counter_of db m + int k))
       [0..<length (filter (\<lambda>c. c = GetNextPaymentIndex m) calls)]"
proof -
  obtain r db' where e: "exec db (GetNextPaymentIndex m) = (r, db')"
    by (cases "exec db (GetNextPaymentIndex m)")
  then have g: "getNextPaymentIndex db m = (r, db')" by simp
  from exec_counter[OF e, of m] g
  have 1: "fst (getNextPaymentIndex db m) = Inr (counter_of db m)"
    and 2: "counter_of (snd (getNextPaymentIndex db m)) m = counter_of db m + 1"
    by simp_all
  have gen: "payment_results m (fst (run d calls)) =
     map (\<lambda>k. Inr (counter_of d m + int k))
       [0..<length (filter (\<lambda>c. c = GetNextPaymentIndex m) calls)]" for d
    using run_payment_results[of d calls "fst (run d calls)" "snd (run d calls)" m] by simp
  have c0: "counter_of empty_store m = 0" by (simp add: counter_of_def empty_store_def)
  from gen[of empty_store] c0
  have 3: "payment_results m (fst (run empty_store calls)) =
     map (\<lambda>k. Inr (int k)) [0..<length (filter (\<lambda>c. c = GetNextPaymentIndex m) calls)]"
    by simp
  from 1 2 3 gen[of db] show ?thesis by blast
qed

text \<open>A history with three calls for \<^verbatim>\<open>merchant_A\<close> among calls for others.\<close>

theorem getNextPaymentIndex_preincrement_sequence_witness:
  "payment_results ''merchant_A''
     (fst (run empty_store
        [GetNextPaymentIndex ''merchant_A'', GetNextPaymentIndex ''merchant_B'',
         GetMerchantIndex ''merchant_A'', GetNextPaymentIndex ''merchant_A'',
         GetNextPaymentIndex ''merchant_A''])) = [Inr 0, Inr 1, Inr 2]"
  using getNextPaymentIndex_preincrement_sequence
    [of empty_store "''merchant_A''"
        "[GetNextPaymentIndex ''merchant_A'', GetNextPaymentIndex ''merchant_B'',
         GetMerchantIndex ''merchant_A'', GetNextPaymentIndex ''merchant_A'',
         GetNextPaymentIndex ''merchant_A'']"]
  by (simp add: upt_rec)

subsection \<open>C3: distinct merchants have distinct indices\<close>

text \<open>
  Claim C3. In every history that starts on the empty store, two calls of
  \<^verbatim>\<open>getMerchantIndex\<close> for distinct merchants return distinct indices, and every call
  returns the index that the final store keeps for its merchant (an index is assigned
  once and never changed). In the final store the map from merchants to indices is
  one-to-one and its range is exactly the integers from 0 up to the global counter; a
  call for a merchant without an index returns the value of the global counter and
  leaves the counter one higher. A transaction is one atomic step of a history.
\<close>

theorem merchant_indices_distinct:
  assumes "run empty_store calls = (tr, db)"
  shows "(\<forall>m1 m2 i1 i2. (GetMerchantIndex m1, Inr i1) \<in> set tr \<longrightarrow>
            (GetMerchantIndex m2, Inr i2) \<in> set tr \<longrightarrow> m1 \<noteq> m2 \<longrightarrow> i1 \<noteq> i2) \<and>
         (\<forall>m r. (GetMerchantIndex m, r) \<in> set tr \<longrightarrow> (\<exists>i. r = Inr i \<and> index_of db m = Some i)) \<and>
         (\<forall>m1 m2 i. index_of db m1 = Some i \<longrightarrow> index_of db m2 = Some i \<longrightarrow> m1 = m2) \<and>
         {i. \<exists>m. index_of db m = Some i} = {0..<next_index db} \<and>
         (\<forall>m. index_of db m = None \<longrightarrow>
            (\<exists>db'. getMerchantIndex db m = Inr (next_index db, db') \<and>
                   next_index db' = next_index db + 1 \<and>
                   index_of db' = (index_of db)(m \<mapsto> next_index db)))"
proof -
  from run_inv[OF store_inv_empty assms] have inv: "store_inv db" .
  then have bound: "\<And>k i. index_of db k = Some i \<Longrightarrow> 0 \<le> i \<and> i < next_index db"
    and inj: "\<And>k1 k2 i. index_of db k1 = Some i \<Longrightarrow> index_of db k2 = Some i \<Longrightarrow> k1 = k2"
    and surj: "\<And>i. 0 \<le> i \<Longrightarrow> i < next_index db \<Longrightarrow> \<exists>k. index_of db k = Some i"
    unfolding store_inv_def by blast+
  have tr: "\<exists>i. r = Inr i \<and> index_of db m = Some i" if "(GetMerchantIndex m, r) \<in> set tr" for m r
    using run_trace_index[OF assms that] .
  have 1: "i1 \<noteq> i2" if "(GetMerchantIndex m1, Inr i1) \<in> set tr"
      "(GetMerchantIndex m2, Inr i2) \<in> set tr" "m1 \<noteq> m2" for m1 m2 i1 i2
  proof
    assume "i1 = i2"
    with tr[OF that(1)] tr[OF that(2)] have "index_of db m1 = Some i1" "index_of db m2 = Some i1"
      by auto
    from inj[OF this] that(3) show False by simp
  qed
  have 4: "{i. \<exists>m. index_of db m = Some i} = {0..<next_index db}"
    using bound surj by auto
  have 5: "\<exists>db'. getMerchantIndex db m = Inr (next_index db, db') \<and>
                   next_index db' = next_index db + 1 \<and>
                   index_of db' = (index_of db)(m \<mapsto> next_index db)"
    if "index_of db m = None" for m
  proof -
    obtain i db' where g: "getMerchantIndex db m = Inr (i, db')"
      using getMerchantIndex_total by blast
    from getMerchantIndex_new(1,2,3)[OF that g] g show ?thesis by simp
  qed
  from 1 tr inj 4 5 show ?thesis by blast
qed

text \<open>A history with two merchants.\<close>

theorem merchant_indices_distinct_witness:
  "fst (run empty_store
          [GetMerchantIndex ''merchant_X'', GetNextPaymentIndex ''merchant_Y'',
           GetMerchantIndex ''merchant_Y'', GetMerchantIndex ''merchant_X'']) =
     [(GetMerchantIndex ''merchant_X'', Inr 0), (GetNextPaymentIndex ''merchant_Y'', Inr 0),
      (GetMerchantIndex ''merchant_Y'', Inr 1), (GetMerchantIndex ''merchant_X'', Inr 0)] \<and>
   index_of (snd (run empty_store
          [GetMerchantIndex ''merchant_X'', GetNextPaymentIndex ''merchant_Y'',
           GetMerchantIndex ''merchant_Y'', GetMerchantIndex ''merchant_X''])) ''merchant_X'' = Some 0 \<and>
   index_of (snd (run empty_store
          [GetMerchantIndex ''merchant_X'', GetNextPaymentIndex ''merchant_Y'',
           GetMerchantIndex ''merchant_Y'', GetMerchantIndex ''merchant_X''])) ''merchant_Y'' = Some 1"
proof -
  let ?cs = "[GetMerchantIndex ''merchant_X'', GetNextPaymentIndex ''merchant_Y'',
           GetMerchantIndex ''merchant_Y'', GetMerchantIndex ''merchant_X'']"
  let ?tr = "[(GetMerchantIndex ''merchant_X'', Inr 0), (GetNextPaymentIndex ''merchant_Y'', Inr 0),
      (GetMerchantIndex ''merchant_Y'', Inr 1), (GetMerchantIndex ''merchant_X'', Inr (0::int))]
      :: (call \<times> (error + int)) list"
  have t: "fst (run empty_store ?cs) = ?tr" by code_simp
  then have h: "run empty_store ?cs = (?tr, snd (run empty_store ?cs))"
    by (simp add: prod_eq_iff)
  from merchant_indices_distinct[OF h]
  have "\<forall>m r. (GetMerchantIndex m, r) \<in> set ?tr \<longrightarrow>
          (\<exists>i. r = Inr i \<and> index_of (snd (run empty_store ?cs)) m = Some i)"
    by blast
  then have "index_of (snd (run empty_store ?cs)) ''merchant_X'' = Some 0"
    and "index_of (snd (run empty_store ?cs)) ''merchant_Y'' = Some 1"
    by auto
  with t show ?thesis by blast
qed

subsection \<open>C4: decryptKeyData inverts encryptKeyData\<close>

text \<open>
  Claim C4. For indices \<open>m\<close> and \<open>p\<close> from 0 up to \<open>2\<^sup>3\<^sup>1\<close>, \<^verbatim>\<open>encryptKeyData(m, p)\<close> returns a
  blob and \<^verbatim>\<open>decryptKeyData\<close> of that blob, on the same service, returns the object
  \<^verbatim>\<open>{ merchantIndex: m, paymentIndex: p }\<close>. This holds for a service built from a seed
  string, whose provider forwards to the local cipher; for a service whose provider has
  neither \<^verbatim>\<open>encrypt\<close> nor \<^verbatim>\<open>decrypt\<close>, which falls back to the local cipher; and for a
  service whose provider has both and keeps its contract, as the provider of
  \<^verbatim>\<open>AWSKMSProvider.ts\<close> does (lemma \<open>AWSKMSProvider_roundtrip\<close>). The libraries are
  assumed to keep their contracts, and the random vector has 16 bytes.
\<close>

theorem encryptKeyData_decryptKeyData_roundtrip:
  assumes "gcm_roundtrip R" and "gcm_hex_output R" and "sha256_length R"
    and "JSON_parse_indices R"
    and "kms_roundtrip (kmsProvider svc)" and "length random = 16"
    and "0 \<le> m" and "m < 2147483648" and "0 \<le> p" and "p < 2147483648"
  shows "\<exists>blob. encryptKeyData R svc random m p = Inr blob \<and>
           decryptKeyData R svc blob = Inr (indices_object m p)"
proof -
  let ?payload = "JSON_stringify_indices m p"
  have j: "JSON_parse R ?payload = Inr (indices_object m p)"
    using assms(4) by (simp add: JSON_parse_indices_def)
  from local_roundtrip[OF assms(1,3,6,2)] obtain blob where
    l: "localEncrypt R svc random ?payload = Inr blob" "localDecrypt R svc blob = Inr ?payload"
    by blast
  show ?thesis
  proof (cases "kmsProvider svc")
    case DirectSeed
    with l j show ?thesis
      by (simp add: encryptKeyData_def decryptKeyData_def kmsProvider_encrypt_def
          kmsProvider_decrypt_def Let_def)
  next
    case (Injected prov)
    with assms(5) have pr: "provider_roundtrip prov" by (simp add: kms_roundtrip_def)
    show ?thesis
    proof (cases "provider_encrypt prov")
      case None
      with pr have "provider_decrypt prov = None"
        by (auto simp add: provider_roundtrip_def split: option.splits)
      with None Injected l j show ?thesis
        by (simp add: encryptKeyData_def decryptKeyData_def kmsProvider_encrypt_def
            kmsProvider_decrypt_def Let_def)
    next
      case (Some enc)
      with pr obtain dec where dec: "provider_decrypt prov = Some dec"
        and rt: "\<forall>random data. length random = 16 \<longrightarrow> (\<exists>c. enc random data = Inr c \<and> dec c = Inr data)"
        by (auto simp add: provider_roundtrip_def split: option.splits)
      from rt assms(6) obtain c where c: "enc random ?payload = Inr c" "dec c = Inr ?payload"
        by blast
      with Some dec Injected j show ?thesis
        by (simp add: encryptKeyData_def decryptKeyData_def kmsProvider_encrypt_def
            kmsProvider_decrypt_def Let_def)
    qed
  qed
qed

text \<open>The round trip of (3, 7) under the seed of the test suite, and on the AWS provider.\<close>

theorem encryptKeyData_decryptKeyData_roundtrip_witness:
  "gcm_roundtrip example_runtime \<and> gcm_hex_output example_runtime \<and>
   sha256_length example_runtime \<and> JSON_parse_indices example_runtime \<and>
   kms_roundtrip (kmsProvider seed_service) \<and> kms_roundtrip (kmsProvider aws_service) \<and>
   length example_iv = 16 \<and>
   encryptKeyData example_runtime seed_service example_iv 3 7 = Inr sealed_blob \<and>
   decryptKeyData example_runtime seed_service sealed_blob = Inr (indices_object 3 7) \<and>
   encryptKeyData example_runtime aws_service example_iv 3 7 = Inr aws_sealed_blob \<and>
   decryptKeyData example_runtime aws_service aws_sealed_blob = Inr (indices_object 3 7)"
proof -
  have k: "kms_roundtrip (kmsProvider seed_service)"
    by (simp add: kms_roundtrip_def seed_service_def)
  have ka: "kms_roundtrip (kmsProvider aws_service)"
    using AWSKMSProvider_roundtrip[OF example_gcm_roundtrip example_base64_roundtrip
        example_kms_client_contract example_gcm_hex_output]
    by (simp add: kms_roundtrip_def aws_service_def)
  have l: "length example_iv = 16" by (simp add: example_iv_def)
  have e: "encryptKeyData example_runtime seed_service example_iv 3 7 = Inr sealed_blob"
    by code_simp
  have ea: "encryptKeyData example_runtime aws_service example_iv 3 7 = Inr aws_sealed_blob"
    by code_simp
  from encryptKeyData_decryptKeyData_roundtrip[OF example_gcm_roundtrip example_gcm_hex_output
      example_sha256_length example_JSON_parse_indices k l, of 3 7] e
  have d: "decryptKeyData example_runtime seed_service sealed_blob = Inr (indices_object 3 7)"
    by auto
  from encryptKeyData_decryptKeyData_roundtrip[OF example_gcm_roundtrip example_gcm_hex_output
      example_sha256_length example_JSON_parse_indices ka l, of 3 7] ea
  have da: "decryptKeyData example_runtime aws_service aws_sealed_blob = Inr (indices_object 3 7)"
    by auto
  from example_gcm_roundtrip example_gcm_hex_output example_sha256_length
    example_JSON_parse_indices k ka l e d ea da
  show ?thesis by blast
qed

subsection \<open>C5: what decryptKeyData rejects\<close>




subsection \<open>C6: the seed expansion\<close>

text \<open>
  Claim C6. \<^verbatim>\<open>getSeedBuffer\<close> is a function of the master seed. On a seed of exactly 64
  hexadecimal characters it returns the 32 bytes that the seed denotes, written twice; on
  every other seed it returns the SHA-512 digest of the bytes of the seed. The result has
  64 bytes (SHA-512 is assumed to return 64 bytes).
\<close>

theorem getSeedBuffer_expansion:
  assumes "sha512_length R" and "getMasterSeed svc = Inr (seed, svc')"
  shows "\<exists>seed64. getSeedBuffer R svc = Inr (seed64, svc') \<and> seed_expansion R seed seed64 \<and>
           length seed64 = 64"
proof (cases "match_exactly is_hex_char 64 seed")
  case True
  then have v: "length seed = 64" "list_all is_hex_char seed" by (simp_all add: match_exactly_iff)
  from Buffer_from_hex_valid[OF v(2)] v(1)
  have b: "length (Buffer_from_hex seed) = 32"
    "Buffer_toString_hex (Buffer_from_hex seed) = map lower_hex seed" by simp_all
  have g: "getSeedBuffer R svc = Inr (Buffer_from_hex seed @ Buffer_from_hex seed, svc')"
    using True assms(2) by (simp add: getSeedBuffer_def Let_def)
  have "\<exists>seed32. length seed32 = 32 \<and> Buffer_toString_hex seed32 = map lower_hex seed \<and>
             Buffer_from_hex seed @ Buffer_from_hex seed = seed32 @ seed32"
    using b by blast
  then have "seed_expansion R seed (Buffer_from_hex seed @ Buffer_from_hex seed)"
    by (simp only: seed_expansion_def v simp_thms if_True)
  with g b(1) show ?thesis by simp
next
  case False
  then have v: "\<not> (length seed = 64 \<and> list_all is_hex_char seed)" by (simp add: match_exactly_iff)
  have g: "getSeedBuffer R svc = Inr (sha512 R seed, svc')"
    using False assms(2) by (simp add: getSeedBuffer_def)
  have "seed_expansion R seed (sha512 R seed)"
    using v by (auto simp add: seed_expansion_def)
  with g assms(1) show ?thesis by (simp add: sha512_length_def)
qed

text \<open>A seed of 64 hexadecimal characters, and the seed of the test suite.\<close>

theorem getSeedBuffer_expansion_witness:
  "sha512_length example_runtime \<and>
   getMasterSeed hex_seed_service = Inr (hex_seed, hex_seed_service) \<and>
   (\<exists>seed64. getSeedBuffer example_runtime hex_seed_service = Inr (seed64, hex_seed_service) \<and>
      seed_expansion example_runtime hex_seed seed64 \<and> length seed64 = 64) \<and>
   getMasterSeed seed_service = Inr (test_seed, seed_service) \<and>
   (\<exists>seed64. getSeedBuffer example_runtime seed_service = Inr (seed64, seed_service) \<and>
      seed_expansion example_runtime test_seed seed64 \<and> length seed64 = 64)"
  using getSeedBuffer_expansion[OF example_sha512_length hex_seed_service_seed]
    getSeedBuffer_expansion[OF example_sha512_length seed_service_seed]
    example_sha512_length hex_seed_service_seed seed_service_seed
  by blast

subsection \<open>C7: indices outside the range\<close>




subsection \<open>C8: what regenerateKeypairFromPath validates\<close>

text \<open>
  Claim C8, as amended. \<^verbatim>\<open>regenerateKeypairFromPath\<close> does not parse the path itself. Once
  the seed is fetched, the path is checked by \<^verbatim>\<open>derivePath\<close> alone, which accepts the
  strings \<^verbatim>\<open>m/D'/.../D'\<close> with one segment or more of decimal digits, of any depth and with
  any numbers. On every other string the call fails with \<^verbatim>\<open>Invalid derivation path\<close>; on an
  accepted string with a segment of \<open>2\<^sup>3\<^sup>1\<close> or more it fails with a range error; on every
  other accepted string a key is derived and the call returns what \<^verbatim>\<open>Keypair\<close> makes of it.
\<close>

theorem regenerateKeypairFromPath_library_validation:
  assumes "getSeedBuffer R svc = Inr (seedBuffer, svc')"
  shows "(path \<notin> accepted_paths \<longrightarrow>
            regenerateKeypairFromPath R svc path = (Inl InvalidDerivationPath, svc')) \<and>
         (\<forall>ds. ds \<noteq> [] \<and> list_all digit_string ds \<and> path = hardened_path ds \<longrightarrow>
            (if list_all (\<lambda>d. parseInt_digits d < 2147483648) ds
             then \<exists>key chainCode.
                    derivePath R path (Buffer_toString_hex seedBuffer) = Inr (key, chainCode) \<and>
                    regenerateKeypairFromPath R svc path =
                      (Keypair_fromRawEd25519Seed R key, svc')
             else regenerateKeypairFromPath R svc path = (Inl ERR_OUT_OF_RANGE, svc')))"
proof (intro conjI allI impI)
  assume "path \<notin> accepted_paths"
  then have "\<not> pathRegex_test path" by (simp add: pathRegex_test_iff)
  then show "regenerateKeypairFromPath R svc path = (Inl InvalidDerivationPath, svc')"
    by (simp add: regenerateKeypairFromPath_def assms derivePath_def)
next
  fix ds
  assume a: "ds \<noteq> [] \<and> list_all digit_string ds \<and> path = hardened_path ds"
  let ?hex = "Buffer_toString_hex seedBuffer"
  let ?segs = "map parseInt_digits ds"
  from a have d: "derivePath R path ?hex = derive_segments R (getMasterKeyFromSeed R ?hex) ?segs"
    by (simp add: derivePath_hardened_path)
  have la: "list_all (\<lambda>n. n < 2147483648) ?segs \<longleftrightarrow> list_all (\<lambda>d. parseInt_digits d < 2147483648) ds"
    by (simp add: list_all_iff)
  show "if list_all (\<lambda>d. parseInt_digits d < 2147483648) ds
        then \<exists>key chainCode.
               derivePath R path ?hex = Inr (key, chainCode) \<and>
               regenerateKeypairFromPath R svc path = (Keypair_fromRawEd25519Seed R key, svc')
        else regenerateKeypairFromPath R svc path = (Inl ERR_OUT_OF_RANGE, svc')"
  proof (cases "list_all (\<lambda>d. parseInt_digits d < 2147483648) ds")
    case True
    with la derive_segments_ok[of ?segs R "getMasterKeyFromSeed R ?hex"] d
    obtain key cc where k: "derivePath R path ?hex = Inr (key, cc)" by auto
    have "regenerateKeypairFromPath R svc path = (Keypair_fromRawEd25519Seed R key, svc')"
      by (cases "Keypair_fromRawEd25519Seed R key")
         (auto simp add: regenerateKeypairFromPath_def assms k)
    with k True show ?thesis by auto
  next
    case False
    with la derive_segments_fail[of ?segs R "getMasterKeyFromSeed R ?hex"] d
    have "derivePath R path ?hex = Inl ERR_OUT_OF_RANGE" by simp
    with False show ?thesis by (simp add: regenerateKeypairFromPath_def assms)
  qed
qed

text \<open>A path without the quotes of hardened segments is rejected.\<close>

theorem regenerateKeypairFromPath_library_validation_witness:
  "getSeedBuffer example_runtime seed_service = Inr (example_sha512 test_seed, seed_service) \<and>
   regenerateKeypairFromPath example_runtime seed_service ''m/44/148/0/0'' =
     (Inl InvalidDerivationPath, seed_service)"
proof -
  have "\<not> pathRegex_test ''m/44/148/0/0''" by code_simp
  then have "''m/44/148/0/0'' \<notin> accepted_paths" by (simp add: pathRegex_test_iff)
  with regenerateKeypairFromPath_library_validation[OF seed_service_buffer, of "''m/44/148/0/0''"]
    seed_service_buffer
  show ?thesis by blast
qed

text \<open>The claim as stated fails: \<^verbatim>\<open>m/0'\<close> is not of the form \<^verbatim>\<open>m/44'/148'/N'/M'\<close>, and a
  keypair is derived from it.\<close>

theorem other_path_shape_counterexample:
  "fst (regenerateKeypairFromPath example_runtime seed_service (''m/0'' @ [CHR 0x27])) =
     Inr (''G00000080737469632d3132333435363738393061626364656600000000000000'',
          ''S00000080737469632d3132333435363738393061626364656600000000000000'')"
  by code_simp

subsection \<open>C9: getMerchantIndex is idempotent\<close>

text \<open>
  Claim C9. Once a call of \<^verbatim>\<open>getMerchantIndex\<close> has returned an index for a merchant,
  every later call for that merchant, after any calls for this or other merchants,
  returns the same index and leaves the store as it found it: no row is created and
  the global counter is not incremented.
\<close>

theorem getMerchantIndex_idempotent:
  assumes "getMerchantIndex db m = Inr (i, db1)" and "run db1 calls = (tr, db2)"
  shows "getMerchantIndex db2 m = Inr (i, db2) \<and> getMerchantIndex db1 m = Inr (i, db1)"
proof -
  from getMerchantIndex_index_of[OF assms(1)] have 1: "index_of db1 m = Some i" .
  from run_stable[OF assms(2) 1] have 2: "index_of db2 m = Some i" .
  from getMerchantIndex_known[OF 1] getMerchantIndex_known[OF 2] show ?thesis by simp
qed

text \<open>The first call on the empty store, then two other calls, then the call again.\<close>

theorem getMerchantIndex_idempotent_witness:
  "getMerchantIndex empty_store ''merchant_A'' =
     Inr (0, \<lparr>merchantHDIndex = [''merchant_A'' \<mapsto> \<lparr>merchant_index = 0, payment_counter = 0\<rparr>],
              hDIndexCounter = [''global'' \<mapsto> 1], payment = Map.empty\<rparr>) \<and>
   getMerchantIndex
     (snd (run \<lparr>merchantHDIndex = [''merchant_A'' \<mapsto> \<lparr>merchant_index = 0, payment_counter = 0\<rparr>],
                hDIndexCounter = [''global'' \<mapsto> 1], payment = Map.empty\<rparr>
             [GetMerchantIndex ''merchant_B'', GetNextPaymentIndex ''merchant_A'']))
     ''merchant_A'' =
     Inr (0, snd (run \<lparr>merchantHDIndex = [''merchant_A'' \<mapsto> \<lparr>merchant_index = 0, payment_counter = 0\<rparr>],
                hDIndexCounter = [''global'' \<mapsto> 1], payment = Map.empty\<rparr>
             [GetMerchantIndex ''merchant_B'', GetNextPaymentIndex ''merchant_A'']))"
proof -
  let ?db1 = "\<lparr>merchantHDIndex = [''merchant_A'' \<mapsto> \<lparr>merchant_index = 0, payment_counter = 0\<rparr>],
              hDIndexCounter = [''global'' \<mapsto> 1], payment = Map.empty\<rparr>"
  let ?cs = "[GetMerchantIndex ''merchant_B'', GetNextPaymentIndex ''merchant_A'']"
  have h1: "getMerchantIndex empty_store ''merchant_A'' = Inr (0, ?db1)"
    using getMerchantIndex_fresh[of empty_store "''merchant_A''"]
    by (simp add: empty_store_def next_index_def)
  have h2: "run ?db1 ?cs = (fst (run ?db1 ?cs), snd (run ?db1 ?cs))" by simp
  from getMerchantIndex_idempotent[OF h1 h2] h1 show ?thesis by blast
qed

subsection \<open>C10: the key of the local cipher before the seed is fetched\<close>

text \<open>
  Claim C10, as amended. On a service whose provider has neither \<^verbatim>\<open>encrypt\<close> nor
  \<^verbatim>\<open>decrypt\<close> and which has not fetched the seed, \<^verbatim>\<open>encryptKeyData\<close> and \<^verbatim>\<open>decryptKeyData\<close>
  use the key derived from the constant \<^verbatim>\<open>default-hd-key\<close>; once a non-empty seed is
  fetched they use the key derived from that seed. When the cipher keeps these two keys
  apart (and writes its ciphertext in hexadecimal digits), a blob encrypted before the
  fetch fails to decrypt after it, and a blob encrypted after the fetch fails to decrypt
  on the service that has not fetched. A fetched seed that is empty, or equal to
  \<^verbatim>\<open>default-hd-key\<close>, leaves the key as it was.
\<close>

theorem default_key_until_seed_fetch:
  assumes "kmsProvider svc = Injected prov"
    and "provider_encrypt prov = None" and "provider_decrypt prov = None"
    and "masterSeed svc = None"
    and "getMasterSeed svc = Inr (seed, svc')"
    and "seed \<noteq> []"
    and "gcm_hex_output R"
    and "gcm_rejects R (default_key R) (seed_key R seed)"
    and "gcm_rejects R (seed_key R seed) (default_key R)"
  shows "local_key R svc = default_key R \<and> local_key R svc' = seed_key R seed \<and>
         encryptKeyData R svc random m p =
           (case aes_256_gcm_encrypt R (default_key R) random (JSON_stringify_indices m p) of
              Inl e \<Rightarrow> Inl e
            | Inr (enc, tag) \<Rightarrow>
                Inr (Buffer_toString_hex random @ '':'' @ Buffer_toString_hex tag @ '':'' @ enc)) \<and>
         (\<forall>blob. encryptKeyData R svc random m p = Inr blob \<longrightarrow>
            decryptKeyData R svc' blob = Inl AuthenticationFailed) \<and>
         (\<forall>blob. encryptKeyData R svc' random m p = Inr blob \<longrightarrow>
            decryptKeyData R svc blob = Inl AuthenticationFailed)"
proof -
  from getMasterSeed_fetch[OF assms(4,1,5)] have svc': "svc' = svc\<lparr>masterSeed := Some seed\<rparr>"
    by simp
  have k0: "local_key R svc = default_key R"
    by (simp add: local_key_def default_key_def seed_or_default_def assms(4))
  have k1: "local_key R svc' = seed_key R seed"
    by (simp add: local_key_def seed_key_def seed_or_default_def svc' assms(6))
  have loc: "encrypts_locally svc" "decrypts_locally svc" "encrypts_locally svc'" "decrypts_locally svc'"
    by (simp_all add: encrypts_locally_def decrypts_locally_def svc' assms(1,2,3))
  have e0: "encryptKeyData R svc random m p =
           (case aes_256_gcm_encrypt R (default_key R) random (JSON_stringify_indices m p) of
              Inl e \<Rightarrow> Inl e
            | Inr (enc, tag) \<Rightarrow>
                Inr (Buffer_toString_hex random @ '':'' @ Buffer_toString_hex tag @ '':'' @ enc))"
    by (simp add: encryptKeyData_local[OF loc(1)] localEncrypt_def Let_def k0)
  have cross: "decryptKeyData R b blob = Inl AuthenticationFailed"
    if enc: "encryptKeyData R a random m p = Inr blob"
      and la: "encrypts_locally a" and lb: "decrypts_locally b"
      and rej: "gcm_rejects R (local_key R a) (local_key R b)" for a b blob
  proof -
    from enc obtain ct tag where
      c: "aes_256_gcm_encrypt R (local_key R a) random (JSON_stringify_indices m p) = Inr (ct, tag)"
      and blob: "blob = Buffer_toString_hex random @ '':'' @ Buffer_toString_hex tag @ '':'' @ ct"
      by (auto simp add: encryptKeyData_local[OF la] localEncrypt_def Let_def split: sum.splits)
    from assms(7) c have "list_all is_hex_char ct" unfolding gcm_hex_output_def by blast
    then have nc: "CHR '':'' \<notin> set ct" by (rule hex_no_colon)
    from rej c have "aes_256_gcm_decrypt R (local_key R b) random tag ct = Inl AuthenticationFailed"
      unfolding gcm_rejects_def by blast
    then have "localDecrypt R b blob = Inl AuthenticationFailed"
      by (simp only: blob localDecrypt_blob[OF nc])
    then show ?thesis
      by (simp add: decryptKeyData_local[OF lb])
  qed
  have 4: "\<forall>blob. encryptKeyData R svc random m p = Inr blob \<longrightarrow>
            decryptKeyData R svc' blob = Inl AuthenticationFailed"
    using cross[of svc _ svc'] loc assms(8) by (simp add: k0 k1)
  have 5: "\<forall>blob. encryptKeyData R svc' random m p = Inr blob \<longrightarrow>
            decryptKeyData R svc blob = Inl AuthenticationFailed"
    using cross[of svc' _ svc] loc assms(9) by (simp add: k0 k1)
  from k0 k1 e0 4 5 show ?thesis by blast
qed

text \<open>The provider holds the seed of the test suite.\<close>

theorem default_key_until_seed_fetch_witness:
  "getMasterSeed (provider_service test_seed) = Inr (test_seed, fetched_service test_seed) \<and>
   gcm_rejects example_runtime (default_key example_runtime) (seed_key example_runtime test_seed) \<and>
   gcm_rejects example_runtime (seed_key example_runtime test_seed) (default_key example_runtime) \<and>
   encryptKeyData example_runtime (provider_service test_seed) example_iv 3 7 = Inr default_sealed_blob \<and>
   decryptKeyData example_runtime (fetched_service test_seed) default_sealed_blob =
     Inl AuthenticationFailed \<and>
   encryptKeyData example_runtime (fetched_service test_seed) example_iv 3 7 = Inr sealed_blob \<and>
   decryptKeyData example_runtime (provider_service test_seed) sealed_blob =
     Inl AuthenticationFailed"
proof -
  let ?k0 = "default_key example_runtime" and ?k1 = "seed_key example_runtime test_seed"
  have ne: "take 15 (?k0 @ replicate 15 (CHR 0x00)) \<noteq> take 15 (?k1 @ replicate 15 (CHR 0x00))"
    by code_simp
  from example_gcm_rejects[OF ne] have r01: "gcm_rejects example_runtime ?k0 ?k1" .
  from example_gcm_rejects[OF ne[symmetric]] have r10: "gcm_rejects example_runtime ?k1 ?k0" .
  have s: "test_seed \<noteq> []" by (simp add: test_seed_def)
  have p: "kmsProvider (provider_service test_seed) = Injected (bare_provider test_seed)"
    "provider_encrypt (bare_provider test_seed) = None"
    "provider_decrypt (bare_provider test_seed) = None"
    "masterSeed (provider_service test_seed) = None"
    by (simp_all add: provider_service_def bare_provider_def)
  have e0: "encryptKeyData example_runtime (provider_service test_seed) example_iv 3 7 = Inr default_sealed_blob"
    by code_simp
  have e1: "encryptKeyData example_runtime (fetched_service test_seed) example_iv 3 7 = Inr sealed_blob"
    by code_simp
  from default_key_until_seed_fetch[OF p provider_service_fetch s example_gcm_hex_output r01 r10,
      of example_iv 3 7] e0 e1
  have "decryptKeyData example_runtime (fetched_service test_seed) default_sealed_blob =
     Inl AuthenticationFailed"
    and "decryptKeyData example_runtime (provider_service test_seed) sealed_blob =
     Inl AuthenticationFailed"
    by auto
  with provider_service_fetch r01 r10 e0 e1 show ?thesis by blast
qed

text \<open>The claim as stated fails: when the provider holds the seed \<^verbatim>\<open>default-hd-key\<close>, or the
  empty seed, a blob encrypted before the fetch decrypts after it.\<close>

theorem seed_equal_to_default_counterexample:
  "getMasterSeed (provider_service ''default-hd-key'') =
     Inr (''default-hd-key'', fetched_service ''default-hd-key'') \<and>
   encryptKeyData example_runtime (provider_service ''default-hd-key'') example_iv 3 7 =
     Inr default_sealed_blob \<and>
   decryptKeyData example_runtime (fetched_service ''default-hd-key'') default_sealed_blob =
     Inr (indices_object 3 7) \<and>
   getMasterSeed (provider_service []) = Inr ([], fetched_service []) \<and>
   encryptKeyData example_runtime (provider_service []) example_iv 3 7 =
     Inr default_sealed_blob \<and>
   decryptKeyData example_runtime (fetched_service []) default_sealed_blob =
     Inr (indices_object 3 7)"
proof -
  have "encryptKeyData example_runtime (provider_service ''default-hd-key'') example_iv 3 7 =
     Inr default_sealed_blob" by code_simp
  moreover have "decryptKeyData example_runtime (fetched_service ''default-hd-key'') default_sealed_blob =
     Inr (indices_object 3 7)" by code_simp
  moreover have "encryptKeyData example_runtime (provider_service []) example_iv 3 7 =
     Inr default_sealed_blob" by code_simp
  moreover have "decryptKeyData example_runtime (fetched_service []) default_sealed_blob =
     Inr (indices_object 3 7)" by code_simp
  ultimately show ?thesis
    using provider_service_fetch[of "''default-hd-key''"] provider_service_fetch[of "[]"] by blast
qed

end
